theory Spec2Isabelle
  imports Main
begin

section \<open>Lane assignment for multi-day events (Calendar component)\<close>

text \<open>
  \<^verbatim>\<open>assignEventLanes(events, weekDays)\<close> of the calendar renderer. The function reads three
  fields of an event: \<^verbatim>\<open>id\<close>, \<^verbatim>\<open>date\<close> and \<^verbatim>\<open>endDate\<close>. Both date strings are turned into
  \<^verbatim>\<open>Date\<close> objects (\<^verbatim>\<open>new Date(s + 'T00:00:00')\<close>) and are only ever compared with the days
  of the week after \<^verbatim>\<open>format(_, 'yyyy-MM-dd')\<close>, that is, as local calendar days. A calendar
  day is modelled by its day number (days since 1970-01-01); the events that reach the
  function are the multi-day ones (the caller filters with \<^verbatim>\<open>isMultiDayEvent\<close>), so
  \<^verbatim>\<open>endDate\<close> is present.
\<close>

type_synonym Date = int

record Event =
  event_id :: string
  date :: Date
  endDate :: Date

record Interval =
  iv_event :: Event
  iv_start :: int
  iv_end :: int

record Slot =
  slot_start :: int
  slot_end :: int
  slot_eventId :: string

record LaneResult =
  eventLanes :: "string \<rightharpoonup> nat"
  maxLanes :: nat

text \<open>\<^verbatim>\<open>Array.prototype.findIndex\<close>: the first index whose element satisfies the test, else -1.\<close>

fun findIndex :: "('a \<Rightarrow> bool) \<Rightarrow> 'a list \<Rightarrow> int" where
  "findIndex P [] = -1"
| "findIndex P (x # xs) =
     (if P x then 0 else (let r = findIndex P xs in if r < 0 then -1 else r + 1))"

definition toInterval :: "Date list \<Rightarrow> Event \<Rightarrow> Interval" where
  "toInterval weekDays ev =
     (let startIdx = findIndex (\<lambda>day. day = date ev) weekDays;
          endIdx = findIndex (\<lambda>day. day = endDate ev) weekDays
      in \<lparr> iv_event = ev,
           iv_start = (if startIdx \<ge> 0 then startIdx else 0),
           iv_end = (if endIdx \<ge> 0 then endIdx else int (length weekDays) - 1) \<rparr>)"

definition weekIntervals :: "Event list \<Rightarrow> Date list \<Rightarrow> Interval list" where
  "weekIntervals events weekDays =
     filter (\<lambda>interval. iv_start interval \<le> iv_end interval) (map (toInterval weekDays) events)"

text \<open>
  The comparator handed to \<^verbatim>\<open>intervals.sort\<close>: by start, then longer duration first.
  \<^verbatim>\<open>Array.prototype.sort\<close> is stable; it is modelled by a stable insertion sort that
  consults only the sign of the comparator.
\<close>

definition compareIntervals :: "Interval \<Rightarrow> Interval \<Rightarrow> int" where
  "compareIntervals a b =
     (if iv_start a \<noteq> iv_start b then iv_start a - iv_start b
      else (iv_end b - iv_start b) - (iv_end a - iv_start a))"

fun insertBy :: "('a \<Rightarrow> 'a \<Rightarrow> int) \<Rightarrow> 'a \<Rightarrow> 'a list \<Rightarrow> 'a list" where
  "insertBy cmp x [] = [x]"
| "insertBy cmp x (y # ys) = (if cmp x y \<le> 0 then x # y # ys else y # insertBy cmp x ys)"

definition sortBy :: "('a \<Rightarrow> 'a \<Rightarrow> int) \<Rightarrow> 'a list \<Rightarrow> 'a list" where
  "sortBy cmp xs = foldr (insertBy cmp) xs []"

definition overlaps :: "Interval \<Rightarrow> Slot \<Rightarrow> bool" where
  "overlaps interval existing =
     (\<not> (iv_end interval < slot_start existing \<or> iv_start interval > slot_end existing))"

definition canFit :: "Interval \<Rightarrow> Slot list \<Rightarrow> bool" where
  "canFit interval lane = list_all (\<lambda>existing. \<not> overlaps interval existing) lane"

definition toSlot :: "Interval \<Rightarrow> Slot" where
  "toSlot interval =
     \<lparr> slot_start = iv_start interval, slot_end = iv_end interval,
       slot_eventId = event_id (iv_event interval) \<rparr>"

text \<open>
  The inner loop over \<^verbatim>\<open>laneIndex\<close>: the first lane the interval fits in receives it.
  \<open>None\<close> is \<^verbatim>\<open>assignedLane === -1\<close> after the loop.
\<close>

fun scanLanes :: "Interval \<Rightarrow> Slot list list \<Rightarrow> (nat \<times> Slot list list) option" where
  "scanLanes interval [] = None"
| "scanLanes interval (lane # rest) =
     (if canFit interval lane then Some (0, (lane @ [toSlot interval]) # rest)
      else (case scanLanes interval rest of
              None \<Rightarrow> None
            | Some (laneIndex, rest') \<Rightarrow> Some (Suc laneIndex, lane # rest')))"

definition assignStep ::
  "Slot list list \<times> (string \<rightharpoonup> nat) \<Rightarrow> Interval \<Rightarrow> Slot list list \<times> (string \<rightharpoonup> nat)" where
  "assignStep st interval =
     (case st of (lanes, lanesOf) \<Rightarrow>
        (case scanLanes interval lanes of
           Some (laneIndex, lanes') \<Rightarrow>
             (lanes', lanesOf(event_id (iv_event interval) \<mapsto> laneIndex))
         | None \<Rightarrow>
             (lanes @ [[toSlot interval]],
              lanesOf(event_id (iv_event interval) \<mapsto> length lanes))))"

definition greedyLanes :: "Interval list \<Rightarrow> Slot list list \<times> (string \<rightharpoonup> nat)" where
  "greedyLanes intervals = foldl assignStep ([], Map.empty) intervals"

definition assignEventLanes :: "Event list \<Rightarrow> Date list \<Rightarrow> LaneResult" where
  "assignEventLanes events weekDays =
     (if length events = 0 then \<lparr> eventLanes = Map.empty, maxLanes = 0 \<rparr>
      else (case greedyLanes (sortBy compareIntervals (weekIntervals events weekDays)) of
              (lanes, lanesOf) \<Rightarrow> \<lparr> eventLanes = lanesOf, maxLanes = length lanes \<rparr>))"

text \<open>
  The call site in \<^verbatim>\<open>renderMonth\<close>: \<^verbatim>\<open>weekStart = weekDays[0]\<close>, \<^verbatim>\<open>weekEnd\<close> is the last
  day of the week, and \<^verbatim>\<open>assignEventLanes\<close> is called on \<^verbatim>\<open>weekSpanningEvents\<close>, the
  multi-day events with \<^verbatim>\<open>eventEnd >= weekStart && eventStart <= weekEnd\<close>. On an empty
  week both comparisons are against \<^verbatim>\<open>undefined\<close> and fail.
\<close>

definition spansWeek :: "Date list \<Rightarrow> Event \<Rightarrow> bool" where
  "spansWeek weekDays event =
     (case weekDays of
        [] \<Rightarrow> False
      | _ \<Rightarrow> endDate event \<ge> hd weekDays \<and> date event \<le> last weekDays)"

definition weekSpanningEvents :: "Event list \<Rightarrow> Date list \<Rightarrow> Event list" where
  "weekSpanningEvents multiDayEvents weekDays = filter (spansWeek weekDays) multiDayEvents"

subsection \<open>Specification vocabulary for the lane assignment\<close>

text \<open>Two occupied slots are disjoint when one ends before the other starts.\<close>

definition disjointSlots :: "Slot \<Rightarrow> Slot \<Rightarrow> bool" where
  "disjointSlots a b = (slot_end a < slot_start b \<or> slot_end b < slot_start a)"

definition laneOk :: "Slot list \<Rightarrow> bool" where
  "laneOk lane = sorted_wrt disjointSlots lane"

text \<open>
  The loop invariant of the greedy pass: every lane is pairwise disjoint, every processed
  interval sits in the lane recorded for its event id, and the map holds exactly the
  processed ids.
\<close>

definition lanesInv :: "Slot list list \<times> (string \<rightharpoonup> nat) \<Rightarrow> Interval list \<Rightarrow> bool" where
  "lanesInv st processed =
     (case st of (lanes, lanesOf) \<Rightarrow>
        (\<forall>lane \<in> set lanes. laneOk lane) \<and>
        (\<forall>iv \<in> set processed. \<exists>l. lanesOf (event_id (iv_event iv)) = Some l \<and>
            l < length lanes \<and> toSlot iv \<in> set (lanes ! l)) \<and>
        dom lanesOf = (\<lambda>iv. event_id (iv_event iv)) ` set processed)"

text \<open>A day lies in the date range of an event; the range meets the week's day list.\<close>

definition inRange :: "Event \<Rightarrow> Date \<Rightarrow> bool" where
  "inRange ev day = (date ev \<le> day \<and> day \<le> endDate ev)"

definition intersectsWeek :: "Event \<Rightarrow> Date list \<Rightarrow> bool" where
  "intersectsWeek ev weekDays = list_ex (inRange ev) weekDays"

text \<open>
  Example data: the business week Monday 2025-09-01 to Friday 2025-09-05 (day numbers
  20332 to 20336), three events inside it, one event two weeks earlier, and one event
  inside the week whose end date (Tuesday) lies before its date (Thursday).
\<close>

definition weekOfSept1 :: "Date list" where
  "weekOfSept1 = [20332, 20333, 20334, 20335, 20336]"

definition evA :: Event where "evA = \<lparr> event_id = ''a'', date = 20332, endDate = 20336 \<rparr>"
definition evB :: Event where "evB = \<lparr> event_id = ''b'', date = 20332, endDate = 20333 \<rparr>"
definition evC :: Event where "evC = \<lparr> event_id = ''c'', date = 20334, endDate = 20335 \<rparr>"
definition evOut :: Event where "evOut = \<lparr> event_id = ''d'', date = 20318, endDate = 20320 \<rparr>"
definition evInv :: Event where "evInv = \<lparr> event_id = ''e'', date = 20335, endDate = 20333 \<rparr>"

section \<open>JavaScript strings and regular expressions\<close>

text \<open>
  A JavaScript string is a sequence of UTF-16 code units. \<open>js\<close> embeds a literal of the
  model (its characters are single code units below 256).
\<close>

type_synonym jsString = "nat list"

definition js :: "string \<Rightarrow> jsString" where
  "js s = map of_char s"

text \<open>
  White space as \<^verbatim>\<open>String.prototype.trim\<close> and the class \<^verbatim>\<open>\s\<close> understand it:
  tab, LF, VT, FF, CR, space, NBSP, U+1680, U+2000..U+200A, U+2028, U+2029, U+202F,
  U+205F, U+3000 and U+FEFF.
\<close>

definition isSpace :: "nat \<Rightarrow> bool" where
  "isSpace c = (c \<in> set [9, 10, 11, 12, 13, 32, 160, 5760, 8232, 8233, 8239, 8287, 12288, 65279]
                \<or> (8192 \<le> c \<and> c \<le> 8202))"

definition isDigit :: "nat \<Rightarrow> bool" where
  "isDigit c = (48 \<le> c \<and> c \<le> 57)"

definition isUpper :: "nat \<Rightarrow> bool" where
  "isUpper c = (65 \<le> c \<and> c \<le> 90)"

definition isLower :: "nat \<Rightarrow> bool" where
  "isLower c = (97 \<le> c \<and> c \<le> 122)"

definition isAlpha :: "nat \<Rightarrow> bool" where
  "isAlpha c = (isUpper c \<or> isLower c)"

text \<open>The word characters of \<^verbatim>\<open>\b\<close>: letters, digits and the underscore.\<close>

definition isWordChar :: "nat \<Rightarrow> bool" where
  "isWordChar c = (isAlpha c \<or> isDigit c \<or> c = 95)"

text \<open>
  \<^verbatim>\<open>toLowerCase\<close>. The parsers only ever look for basic Latin letters in a lower-cased
  string, so the model maps the code units whose lower case is or contains a basic Latin
  letter: A to Z, the Kelvin sign U+212A (to k) and U+0130 (to i followed by U+0307, the
  one mapping that changes the length). Every other code unit is kept.
\<close>

definition lowerUnit :: "nat \<Rightarrow> jsString" where
  "lowerUnit c =
     (if isUpper c then [c + 32]
      else if c = 8490 then [107]
      else if c = 304 then [105, 775]
      else [c])"

definition toLowerCase :: "jsString \<Rightarrow> jsString" where
  "toLowerCase s = concat (map lowerUnit s)"

definition trimStart :: "jsString \<Rightarrow> jsString" where
  "trimStart s = dropWhile isSpace s"

definition trimEnd :: "jsString \<Rightarrow> jsString" where
  "trimEnd s = rev (dropWhile isSpace (rev s))"

definition trim :: "jsString \<Rightarrow> jsString" where
  "trim s = trimEnd (trimStart s)"

fun startsWith :: "jsString \<Rightarrow> jsString \<Rightarrow> bool" where
  "startsWith s [] = True"
| "startsWith [] (p # ps) = False"
| "startsWith (c # cs) (p # ps) = (c = p \<and> startsWith cs ps)"

text \<open>\<^verbatim>\<open>indexOf\<close>: position of the first occurrence, -1 when there is none.\<close>

fun indexOfFrom :: "jsString \<Rightarrow> jsString \<Rightarrow> int \<Rightarrow> int" where
  "indexOfFrom [] sub i = (if sub = [] then i else - 1)"
| "indexOfFrom (c # cs) sub i =
     (if startsWith (c # cs) sub then i else indexOfFrom cs sub (i + 1))"

definition indexOf :: "jsString \<Rightarrow> jsString \<Rightarrow> int" where
  "indexOf s sub = indexOfFrom s sub 0"

definition includesStr :: "jsString \<Rightarrow> jsString \<Rightarrow> bool" where
  "includesStr s sub = (indexOf s sub \<noteq> - 1)"

text \<open>
  \<^verbatim>\<open>slice(start, end)\<close>: a negative index counts from the end, both are clamped to the
  string. \<^verbatim>\<open>slice(start)\<close> takes the length as end.
\<close>

definition clampIndex :: "jsString \<Rightarrow> int \<Rightarrow> nat" where
  "clampIndex s i = (if i < 0 then nat (max (int (length s) + i) 0) else min (nat i) (length s))"

definition slice :: "jsString \<Rightarrow> int \<Rightarrow> int \<Rightarrow> jsString" where
  "slice s start stop = take (clampIndex s stop - clampIndex s start) (drop (clampIndex s start) s)"

definition sliceFrom :: "jsString \<Rightarrow> int \<Rightarrow> jsString" where
  "sliceFrom s start = drop (clampIndex s start) s"

text \<open>
  Decimal digits of a natural number (\<^verbatim>\<open>Number.prototype.toString\<close>), \<^verbatim>\<open>padStart(n, '0')\<close>
  and \<^verbatim>\<open>parseInt\<close> on a string of decimal digits (every argument of \<^verbatim>\<open>parseInt\<close> in the
  parsers is a capture of \<^verbatim>\<open>\d{1,2}\<close>).
\<close>

function natToString :: "nat \<Rightarrow> jsString" where
  "natToString n = (if n < 10 then [48 + n] else natToString (n div 10) @ [48 + n mod 10])"
  by pat_completeness auto
termination
  by (relation "measure id") auto

declare natToString.simps [simp del]

function padStart0 :: "nat \<Rightarrow> jsString \<Rightarrow> jsString" where
  "padStart0 n s = (if length s < n then padStart0 n (48 # s) else s)"
  by pat_completeness auto
termination
  by (relation "measure (\<lambda>(n, s). n - length s)") auto

declare padStart0.simps [simp del]

definition parseInt :: "jsString \<Rightarrow> nat" where
  "parseInt s = foldl (\<lambda>acc c. 10 * acc + (c - 48)) 0 (takeWhile isDigit s)"

subsection \<open>Regular expressions\<close>

text \<open>
  The fragment of the regular expression syntax that the parsers use. Every starred or
  plussed item in their patterns is a single character class, so the greedy star ranges
  over a class; \<^verbatim>\<open>x+\<close> is \<^verbatim>\<open>x\<close> followed by \<^verbatim>\<open>x*\<close>, \<^verbatim>\<open>\d{1,2}\<close> a digit followed by an
  optional digit. With the \<^verbatim>\<open>i\<close> flag a basic Latin letter of the pattern matches both of
  its cases and nothing else (\<open>LetterI\<close>, given in lower case).
\<close>

datatype charClass =
    Unit nat
  | LetterI nat
  | Digit
  | Space
  | Alpha
  | NotUnit nat
  | OneOf "nat list"

datatype regex =
    Cls charClass
  | Seq regex regex
  | Alt regex regex
  | Star charClass
  | Opt regex
  | Group nat regex
  | WordBoundary
  | EndOfInput
  | Empty

fun inClass :: "charClass \<Rightarrow> nat \<Rightarrow> bool" where
  "inClass (Unit u) c = (c = u)"
| "inClass (LetterI u) c = (c = u \<or> c + 32 = u)"
| "inClass Digit c = isDigit c"
| "inClass Space c = isSpace c"
| "inClass Alpha c = isAlpha c"
| "inClass (NotUnit u) c = (c \<noteq> u)"
| "inClass (OneOf us) c = (c \<in> set us)"

text \<open>
  The backtracking matcher. The work list holds what is still to be matched; a group
  leaves a marker that records the capture when the group has been matched. The
  alternatives are tried in the order of the ECMAScript semantics: the left branch of an
  alternation first, one more repetition before none, the optional part before its
  absence. The state is the code unit before the current position (for \<^verbatim>\<open>\b\<close>), the
  rest of the input and the captures; the result is the rest of the input after the
  match, with the captures.
\<close>

datatype work = Match regex | CloseGroup nat jsString

type_synonym captures = "(nat \<times> jsString) list"

fun regexWeight :: "regex \<Rightarrow> nat" where
  "regexWeight (Seq a b) = Suc (regexWeight a + regexWeight b)"
| "regexWeight (Alt a b) = Suc (regexWeight a + regexWeight b)"
| "regexWeight (Opt a) = Suc (regexWeight a)"
| "regexWeight (Group n a) = Suc (Suc (regexWeight a))"
| "regexWeight r = 1"

fun workWeight :: "work \<Rightarrow> nat" where
  "workWeight (Match r) = regexWeight r"
| "workWeight (CloseGroup n s) = 1"

function (sequential) run ::
  "work list \<Rightarrow> nat option \<Rightarrow> jsString \<Rightarrow> captures \<Rightarrow> (jsString \<times> captures) option" where
  "run [] prev s caps = Some (s, caps)"
| "run (Match (Cls cl) # k) prev [] caps = None"
| "run (Match (Cls cl) # k) prev (c # cs) caps =
     (if inClass cl c then run k (Some c) cs caps else None)"
| "run (Match (Seq a b) # k) prev s caps = run (Match a # Match b # k) prev s caps"
| "run (Match (Alt a b) # k) prev s caps =
     (case run (Match a # k) prev s caps of
        Some r \<Rightarrow> Some r
      | None \<Rightarrow> run (Match b # k) prev s caps)"
| "run (Match (Star cl) # k) prev [] caps = run k prev [] caps"
| "run (Match (Star cl) # k) prev (c # cs) caps =
     (if inClass cl c then
        (case run (Match (Star cl) # k) (Some c) cs caps of
           Some r \<Rightarrow> Some r
         | None \<Rightarrow> run k prev (c # cs) caps)
      else run k prev (c # cs) caps)"
| "run (Match (Opt a) # k) prev s caps =
     (case run (Match a # k) prev s caps of
        Some r \<Rightarrow> Some r
      | None \<Rightarrow> run k prev s caps)"
| "run (Match (Group n a) # k) prev s caps = run (Match a # CloseGroup n s # k) prev s caps"
| "run (CloseGroup n s0 # k) prev s caps =
     run k prev s ((n, take (length s0 - length s) s0) # caps)"
| "run (Match WordBoundary # k) prev s caps =
     (if (case prev of None \<Rightarrow> False | Some p \<Rightarrow> isWordChar p)
         \<noteq> (case s of [] \<Rightarrow> False | c # cs \<Rightarrow> isWordChar c)
      then run k prev s caps else None)"
| "run (Match EndOfInput # k) prev s caps = (if s = [] then run k prev s caps else None)"
| "run (Match Empty # k) prev s caps = run k prev s caps"
  by pat_completeness auto
termination
  by (relation "measures [\<lambda>(k, prev, s, caps). length s,
                          \<lambda>(k, prev, s, caps). sum_list (map workWeight k)]") auto

text \<open>
  A match result as \<^verbatim>\<open>String.prototype.match\<close> returns it for a pattern without the \<^verbatim>\<open>g\<close>
  flag: the index, the matched text (\<^verbatim>\<open>match[0]\<close>) and the captures, together with the
  input after the match. The captures are kept as a list of pairs of a group number and
  its text, the latest first; a group that took no part in the match has no entry
  (\<^verbatim>\<open>undefined\<close>).
\<close>

type_synonym RegExp = regex

record MatchResult =
  m_index :: nat
  m_text :: jsString
  m_caps :: captures
  m_rest :: jsString

fun searchFrom :: "RegExp \<Rightarrow> nat option \<Rightarrow> jsString \<Rightarrow> nat \<Rightarrow> MatchResult option" where
  "searchFrom re prev [] i =
     (case run [Match re] prev [] [] of
        Some (rest, caps) \<Rightarrow> Some \<lparr> m_index = i, m_text = [], m_caps = caps, m_rest = rest \<rparr>
      | None \<Rightarrow> None)"
| "searchFrom re prev (c # cs) i =
     (case run [Match re] prev (c # cs) [] of
        Some (rest, caps) \<Rightarrow>
          Some \<lparr> m_index = i, m_text = take (Suc (length cs) - length rest) (c # cs),
                 m_caps = caps, m_rest = rest \<rparr>
      | None \<Rightarrow> searchFrom re (Some c) cs (Suc i))"

definition match :: "jsString \<Rightarrow> RegExp \<Rightarrow> MatchResult option" where
  "match s re = searchFrom re None s 0"

definition test :: "RegExp \<Rightarrow> jsString \<Rightarrow> bool" where
  "test re s = (match s re \<noteq> None)"

text \<open>\<^verbatim>\<open>match[n]\<close> for \<open>n \<ge> 1\<close>, and its truthiness (defined and not the empty string).\<close>

definition grp :: "MatchResult \<Rightarrow> nat \<Rightarrow> jsString option" where
  "grp m n = map_of (m_caps m) n"

definition truthy :: "jsString option \<Rightarrow> bool" where
  "truthy v = (case v of None \<Rightarrow> False | Some s \<Rightarrow> s \<noteq> [])"

definition str :: "jsString option \<Rightarrow> jsString" where
  "str v = (case v of None \<Rightarrow> [] | Some s \<Rightarrow> s)"

text \<open>\<^verbatim>\<open>s.replace(re, by)\<close> without the \<^verbatim>\<open>g\<close> flag replaces the first match only.\<close>

definition replaceFirst :: "jsString \<Rightarrow> RegExp \<Rightarrow> jsString \<Rightarrow> jsString" where
  "replaceFirst s re repl =
     (case match s re of
        None \<Rightarrow> s
      | Some m \<Rightarrow> take (m_index m) s @ repl @ m_rest m)"

text \<open>
  With the \<^verbatim>\<open>g\<close> flag every match is replaced, scanning from left to right; the search
  resumes after a match, and one code unit further on when the match was empty.
\<close>

function replaceAllFrom :: "RegExp \<Rightarrow> jsString \<Rightarrow> nat option \<Rightarrow> jsString \<Rightarrow> jsString" where
  "replaceAllFrom re repl prev s =
     (case searchFrom re prev s 0 of
        None \<Rightarrow> s
      | Some m \<Rightarrow>
          (if m_text m = [] \<or> length s \<le> length (m_rest m) then
             (case drop (m_index m) s of
                [] \<Rightarrow> take (m_index m) s @ repl
              | c # cs \<Rightarrow> take (m_index m) s @ repl @ [c] @ replaceAllFrom re repl (Some c) cs)
           else take (m_index m) s @ repl
                @ replaceAllFrom re repl (Some (last (m_text m))) (m_rest m)))"
  by pat_completeness auto
termination
  by (relation "measure (\<lambda>(re, repl, prev, s). length s)")
     (auto dest!: arg_cong[where f = length] simp: algebra_simps)

declare replaceAllFrom.simps [simp del]

definition replaceAll :: "jsString \<Rightarrow> RegExp \<Rightarrow> jsString \<Rightarrow> jsString" where
  "replaceAll s re repl = replaceAllFrom re repl None s"

text \<open>Pattern building blocks.\<close>

definition litI :: "string \<Rightarrow> regex" where
  "litI s = foldr (\<lambda>c r. Seq (Cls (if isLower (of_char c) then LetterI (of_char c) else Unit (of_char c))) r) s Empty"

definition oneOrMore :: "charClass \<Rightarrow> regex" where
  "oneOrMore cl = Seq (Cls cl) (Star cl)"

definition digits12 :: regex where
  "digits12 = Seq (Cls Digit) (Opt (Cls Digit))"

definition digits2 :: regex where
  "digits2 = Seq (Cls Digit) (Cls Digit)"

definition digits4 :: regex where
  "digits4 = Seq (Cls Digit) (Seq (Cls Digit) (Seq (Cls Digit) (Cls Digit)))"

fun alts :: "regex list \<Rightarrow> regex" where
  "alts [] = Empty"
| "alts [r] = r"
| "alts (r # rs) = Alt r (alts rs)"

fun seqs :: "regex list \<Rightarrow> regex" where
  "seqs [] = Empty"
| "seqs [r] = r"
| "seqs (r # rs) = Seq r (seqs rs)"

section \<open>Calendar days\<close>

text \<open>
  A \<^verbatim>\<open>Date\<close> is used by the parsers as a local calendar day only: they read
  \<^verbatim>\<open>getFullYear\<close>, \<^verbatim>\<open>getMonth\<close> and \<^verbatim>\<open>getDate\<close>, add whole days and compare days. The
  model is the day number (days since 1970-01-01) with the proleptic Gregorian calendar
  that these accessors implement; \<open>None\<close> is the \<^verbatim>\<open>Invalid Date\<close>.
\<close>

definition isLeapYear :: "int \<Rightarrow> bool" where
  "isLeapYear y = (y mod 400 = 0 \<or> (y mod 4 = 0 \<and> y mod 100 \<noteq> 0))"

text \<open>Days in a month, months counted from 0 as \<^verbatim>\<open>getMonth\<close> does.\<close>

definition daysInMonth :: "int \<Rightarrow> nat \<Rightarrow> nat" where
  "daysInMonth y m =
     (if m = 1 then (if isLeapYear y then 29 else 28)
      else if m \<in> set [3, 5, 8, 10] then 30 else 31)"

text \<open>Day number of year \<open>y\<close>, month \<open>m\<close> (from 0) and day of month \<open>d\<close>.\<close>

definition makeDay :: "int \<Rightarrow> nat \<Rightarrow> nat \<Rightarrow> Date" where
  "makeDay y m d =
     (let y' = (if m \<le> 1 then y - 1 else y);
          era = y' div 400;
          yoe = y' mod 400;
          mp = (if m \<le> 1 then int m + 10 else int m - 2);
          doy = (153 * mp + 2) div 5 + int d - 1;
          doe = yoe * 365 + yoe div 4 - yoe div 100 + doy
      in era * 146097 + doe - 719468)"

text \<open>The year, the month (from 0) and the day of the month of a day number.\<close>

definition civil :: "Date \<Rightarrow> int \<times> nat \<times> nat" where
  "civil z =
     (let z' = z + 719468;
          era = z' div 146097;
          doe = z' mod 146097;
          yoe = (doe - doe div 1460 + doe div 36524 - doe div 146096) div 365;
          doy = doe - (365 * yoe + yoe div 4 - yoe div 100);
          mp = (5 * doy + 2) div 153;
          d = doy - (153 * mp + 2) div 5 + 1;
          m = (if mp < 10 then mp + 2 else mp - 10);
          y = yoe + era * 400 + (if m \<le> 1 then 1 else 0)
      in (y, nat m, nat d))"

definition getFullYear :: "Date \<Rightarrow> int" where
  "getFullYear z = fst (civil z)"

definition getMonth :: "Date \<Rightarrow> nat" where
  "getMonth z = fst (snd (civil z))"

definition getDate :: "Date \<Rightarrow> nat" where
  "getDate z = snd (snd (civil z))"

text \<open>Decimal rendering of an integer (\<^verbatim>\<open>Number.prototype.toString\<close>).\<close>

definition intToString :: "int \<Rightarrow> jsString" where
  "intToString i = (if i < 0 then 45 # natToString (nat (- i)) else natToString (nat i))"

text \<open>
  \<^verbatim>\<open>formatDateSafe\<close> of dateParser.ts: the local year, month and day joined by dashes,
  month and day padded to two digits.
\<close>

definition formatDateSafe :: "Date \<Rightarrow> jsString" where
  "formatDateSafe dt =
     (let year = getFullYear dt;
          month = padStart0 2 (natToString (getMonth dt + 1));
          day = padStart0 2 (natToString (getDate dt))
      in intToString year @ js ''-'' @ month @ js ''-'' @ day)"

subsection \<open>The date-fns functions used by the bulk parser\<close>

text \<open>
  The library is not part of the repository; the functions are modelled from the
  behaviour of date-fns 3.x (the version the project declares) on the arguments the
  parser passes.

  \<^verbatim>\<open>formatISO(d, { representation: "date" })\<close>: year padded to four digits (with a sign for
  a negative year), month and day padded to two.
\<close>

definition formatISO :: "Date \<Rightarrow> jsString" where
  "formatISO dt =
     (let y = getFullYear dt;
          year = (if y < 0 then js ''-'' else []) @ padStart0 4 (natToString (nat \<bar>y\<bar>))
      in year @ js ''-'' @ padStart0 2 (natToString (getMonth dt + 1))
              @ js ''-'' @ padStart0 2 (natToString (getDate dt)))"

definition addDays :: "Date \<Rightarrow> int \<Rightarrow> Date" where
  "addDays dt n = dt + n"

text \<open>
  \<^verbatim>\<open>eachDayOfInterval({ start, end })\<close>: every day from start to end. Since date-fns 3 an
  interval whose start lies after its end is not rejected: the days are returned in
  descending order. An invalid date at either end gives the empty list.
\<close>

definition eachDayOfInterval :: "Date option \<Rightarrow> Date option \<Rightarrow> Date list" where
  "eachDayOfInterval start stop =
     (case (start, stop) of
        (Some s, Some e) \<Rightarrow> (if s > e then rev [e..s] else [s..e])
      | _ \<Rightarrow> [])"

text \<open>
  \<^verbatim>\<open>parse(text, "LLLL d, yyyy", new Date())\<close>. The month token accepts a full English month
  name, else a three-letter abbreviation, else a single letter (the first month with
  that initial), case-insensitively and as a prefix of the text; the literal parts of
  the format must follow exactly; the day token reads \<^verbatim>\<open>3[0-1]|[0-2]?\d\<close>, the year token
  up to four digits; only white space may remain. The year must be positive and the day
  must exist in the month.
\<close>

definition wideMonths :: "string list" where
  "wideMonths = [''january'', ''february'', ''march'', ''april'', ''may'', ''june'', ''july'',
                 ''august'', ''september'', ''october'', ''november'', ''december'']"

definition abbreviatedMonths :: "string list" where
  "abbreviatedMonths = [''jan'', ''feb'', ''mar'', ''apr'', ''may'', ''jun'', ''jul'',
                        ''aug'', ''sep'', ''oct'', ''nov'', ''dec'']"

definition narrowMonths :: "string list" where
  "narrowMonths = [''j'', ''f'', ''m'', ''a'', ''m'', ''j'', ''j'', ''a'', ''s'', ''o'', ''n'', ''d'']"

text \<open>The first name of the list that is a prefix of the text, ignoring case, with the rest.\<close>

fun startsWithI :: "jsString \<Rightarrow> string \<Rightarrow> bool" where
  "startsWithI s [] = True"
| "startsWithI [] (p # ps) = False"
| "startsWithI (c # cs) (p # ps) = (inClass (LetterI (of_char p)) c \<and> startsWithI cs ps)"

fun matchName :: "string list \<Rightarrow> nat \<Rightarrow> jsString \<Rightarrow> (nat \<times> jsString) option" where
  "matchName [] i s = None"
| "matchName (n # ns) i s =
     (if startsWithI s n then Some (i, drop (length n) s) else matchName ns (Suc i) s)"

definition parseMonthToken :: "jsString \<Rightarrow> (nat \<times> jsString) option" where
  "parseMonthToken s =
     (case matchName wideMonths 0 s of
        Some r \<Rightarrow> Some r
      | None \<Rightarrow>
          (case matchName abbreviatedMonths 0 s of
             Some r \<Rightarrow> Some r
           | None \<Rightarrow> matchName narrowMonths 0 s))"

definition expectLiteral :: "string \<Rightarrow> jsString \<Rightarrow> jsString option" where
  "expectLiteral l s = (if startsWith s (js l) then Some (drop (length l) s) else None)"

definition parseDayToken :: "jsString \<Rightarrow> (nat \<times> jsString) option" where
  "parseDayToken s =
     (case s of
        [] \<Rightarrow> None
      | a # rest \<Rightarrow>
          (if \<not> isDigit a then None
           else (case rest of
                   b # rest' \<Rightarrow>
                     (if isDigit b \<and> (a = 51 \<and> b \<le> 49 \<or> a \<le> 50)
                      then Some (parseInt [a, b], rest')
                      else Some (parseInt [a], rest))
                 | [] \<Rightarrow> Some (parseInt [a], rest))))"

definition parseYearToken :: "jsString \<Rightarrow> (nat \<times> jsString) option" where
  "parseYearToken s =
     (let ds = take 4 (takeWhile isDigit s)
      in if ds = [] then None else Some (parseInt ds, drop (length ds) s))"

definition parseExact :: "jsString \<Rightarrow> Date option" where
  "parseExact s =
     (case parseMonthToken s of
        None \<Rightarrow> None
      | Some (month, s1) \<Rightarrow>
     (case expectLiteral '' '' s1 of
        None \<Rightarrow> None
      | Some s2 \<Rightarrow>
     (case parseDayToken s2 of
        None \<Rightarrow> None
      | Some (day, s3) \<Rightarrow>
     (case expectLiteral '','' s3 of
        None \<Rightarrow> None
      | Some s4 \<Rightarrow>
     (case expectLiteral '' '' s4 of
        None \<Rightarrow> None
      | Some s5 \<Rightarrow>
     (case parseYearToken s5 of
        None \<Rightarrow> None
      | Some (year, s6) \<Rightarrow>
          (if \<not> list_all isSpace s6 then None
           else if \<not> (0 < year) then None
           else if \<not> (1 \<le> day \<and> day \<le> daysInMonth (int year) month) then None
           else Some (makeDay (int year) month day))))))))"

text \<open>
  \<^verbatim>\<open>chrono.parseDate\<close> of chrono-node is a natural-language date recogniser outside the
  repository. The parser is modelled relative to it: it may throw, find no date
  (\<^verbatim>\<open>null\<close>) or return a date.
\<close>

datatype chronoResult = ChronoThrows | ChronoNull | ChronoDate Date

section \<open>The bulk text parser (bulkParser.ts)\<close>

datatype EventType = PLANNING | MEETING | MONTHLY_REVIEW | HOLIDAYS

record BulkEvent =
  be_type :: EventType
  be_title :: jsString
  be_date :: jsString
  be_startDate :: "jsString option"
  be_endDate :: "jsString option"

definition guessType :: "jsString \<Rightarrow> EventType" where
  "guessType titleRaw =
     (let t = toLowerCase titleRaw in
      if includesStr t (js ''monthly review'') then MONTHLY_REVIEW
      else if includesStr t (js ''holiday'') \<or> includesStr t (js ''annual leave'')
              \<or> includesStr t (js ''pto'') then HOLIDAYS
      else if includesStr t (js ''meeting'') \<or> includesStr t (js ''review'')
              \<or> includesStr t (js ''alignment'') \<or> includesStr t (js ''kickoff'') then MEETING
      else PLANNING)"

text \<open>\<^verbatim>\<open>/\s*\([^)]+\)\s*$/\<close>\<close>

definition trailingParenRegex :: RegExp where
  "trailingParenRegex =
     seqs [Star Space, Cls (Unit 40), oneOrMore (NotUnit 41), Cls (Unit 41),
                        Star Space, EndOfInput]"

definition cleanTitle :: "jsString \<Rightarrow> jsString" where
  "cleanTitle s = trim (replaceFirst s trailingParenRegex [])"

text \<open>
  The class of the en dash U+2013 and the em dash U+2014 (flag \<^verbatim>\<open>g\<close>), \<^verbatim>\<open>/\s*-\s*/g\<close> and
  \<^verbatim>\<open>/\([^)]+\)/g\<close>
\<close>

definition dashRegex :: RegExp where
  "dashRegex = Cls (OneOf [8211, 8212])"

definition hyphenRegex :: RegExp where
  "hyphenRegex = seqs [Star Space, Cls (Unit 45), Star Space]"

definition parenRegex :: RegExp where
  "parenRegex =
     seqs [Cls (Unit 40), oneOrMore (NotUnit 41), Cls (Unit 41)]"

text \<open>\<^verbatim>\<open>/week of\s+/i\<close>\<close>

definition weekOfRegex :: RegExp where
  "weekOfRegex = Seq (litI ''week of'') (oneOrMore Space)"

text \<open>
  \<^verbatim>\<open>/\b(jan|feb|mar|apr|may|jun|jul|aug|sep|oct|nov|dec|january|february|march|april|may|june|july|august|september|october|november|december)\b/i\<close>
\<close>

definition monthRegex :: RegExp where
  "monthRegex =
     seqs [WordBoundary,
          Group 1 (alts (map litI
            [''jan'', ''feb'', ''mar'', ''apr'', ''may'', ''jun'', ''jul'', ''aug'', ''sep'',
             ''oct'', ''nov'', ''dec'', ''january'', ''february'', ''march'', ''april'', ''may'',
             ''june'', ''july'', ''august'', ''september'', ''october'', ''november'',
             ''december''])),
          WordBoundary]"

text \<open>
  \<^verbatim>\<open>range1 = /([a-zA-Z]+)\s+(\d{1,2})\s*-\s*([a-zA-Z]+)?\s*(\d{1,2}),\s*(\d{4})/\<close> and
  \<^verbatim>\<open>range2 = /([a-zA-Z]+)\s+(\d{1,2})-(\d{1,2}),\s*(\d{4})/\<close>
\<close>

definition range1 :: RegExp where
  "range1 =
     seqs [Group 1 (oneOrMore Alpha), oneOrMore Space, Group 2 digits12,
          Star Space, Cls (Unit 45), Star Space, Opt (Group 3 (oneOrMore Alpha)), Star Space,
          Group 4 digits12, Cls (Unit 44), Star Space, Group 5 digits4]"

definition range2 :: RegExp where
  "range2 =
     seqs [Group 1 (oneOrMore Alpha), oneOrMore Space, Group 2 digits12,
          Cls (Unit 45), Group 3 digits12, Cls (Unit 44), Star Space, Group 4 digits4]"

text \<open>The text handed to \<^verbatim>\<open>parseExact\<close>: month, space, day, comma, space, year.\<close>

definition monthDayYear :: "jsString \<Rightarrow> jsString \<Rightarrow> jsString \<Rightarrow> jsString" where
  "monthDayYear m d yyyy = m @ js '' '' @ d @ js '', '' @ yyyy"

text \<open>
  The body executed for a match of \<open>range1\<close>, and the one for a match of \<open>range2\<close>: \<^verbatim>\<open>start\<close>
  and \<^verbatim>\<open>end\<close> are parsed from the first and from the second month and day of the match
  (the second month defaults to the first), and \<^verbatim>\<open>dates\<close> is the expansion of the interval
  from \<^verbatim>\<open>start\<close> to \<^verbatim>\<open>end\<close>.
\<close>

definition range1Ends :: "MatchResult \<Rightarrow> Date option \<times> Date option" where
  "range1Ends r =
     (let m1 = str (grp r 1); d1 = str (grp r 2);
          m2 = (if truthy (grp r 3) then str (grp r 3) else str (grp r 1));
          d2 = str (grp r 4); yyyy = str (grp r 5)
      in (parseExact (monthDayYear m1 d1 yyyy), parseExact (monthDayYear m2 d2 yyyy)))"

definition range1Dates :: "MatchResult \<Rightarrow> Date list" where
  "range1Dates r = (case range1Ends r of (start, stop) \<Rightarrow> eachDayOfInterval start stop)"

definition range2Ends :: "MatchResult \<Rightarrow> Date option \<times> Date option" where
  "range2Ends r =
     (let m = str (grp r 1); d1 = str (grp r 2); d2 = str (grp r 3); yyyy = str (grp r 4)
      in (parseExact (monthDayYear m d1 yyyy), parseExact (monthDayYear m d2 yyyy)))"

definition range2Dates :: "MatchResult \<Rightarrow> Date list" where
  "range2Dates r = (case range2Ends r of (start, stop) \<Rightarrow> eachDayOfInterval start stop)"

text \<open>
  The guarded block that computes \<^verbatim>\<open>dates\<close>. \<open>None\<close> is an exception caught by the
  \<^verbatim>\<open>catch\<close> clause (the function then returns no event).
\<close>

definition lineDates ::
  "(jsString \<Rightarrow> chronoResult) \<Rightarrow> bool \<Rightarrow> jsString \<Rightarrow> Date list option" where
  "lineDates chrono weekOf datePart =
     (if test range1 datePart then
        (case match datePart range1 of Some r \<Rightarrow> Some (range1Dates r) | None \<Rightarrow> Some [])
      else if test range2 datePart then
        (case match datePart range2 of Some r \<Rightarrow> Some (range2Dates r) | None \<Rightarrow> Some [])
      else if weekOf then
        (let after = replaceFirst datePart weekOfRegex [] in
         if test range1 after then
           (case match after range1 of Some r \<Rightarrow> Some (range1Dates r) | None \<Rightarrow> Some [])
         else if test range2 after then
           (case match after range2 of Some r \<Rightarrow> Some (range2Dates r) | None \<Rightarrow> Some [])
         else
           (case chrono after of
              ChronoThrows \<Rightarrow> None
            | ChronoNull \<Rightarrow> Some []
            | ChronoDate d \<Rightarrow> Some (eachDayOfInterval (Some d) (Some (addDays d 4)))))
      else
        (case chrono datePart of
           ChronoThrows \<Rightarrow> None
         | ChronoNull \<Rightarrow> Some []
         | ChronoDate d \<Rightarrow> Some [d]))"

text \<open>
  The \<^verbatim>\<open>start\<close> and \<^verbatim>\<open>end\<close> of the interval that the guarded block expands, in the branch
  that the block takes; \<open>None\<close> in the branches that expand no interval.
\<close>

definition intervalEnds ::
  "(jsString \<Rightarrow> chronoResult) \<Rightarrow> bool \<Rightarrow> jsString \<Rightarrow> (Date option \<times> Date option) option" where
  "intervalEnds chrono weekOf datePart =
     (if test range1 datePart then map_option range1Ends (match datePart range1)
      else if test range2 datePart then map_option range2Ends (match datePart range2)
      else if weekOf then
        (let after = replaceFirst datePart weekOfRegex [] in
         if test range1 after then map_option range1Ends (match after range1)
         else if test range2 after then map_option range2Ends (match after range2)
         else
           (case chrono after of
              ChronoDate d \<Rightarrow> Some (Some d, Some (addDays d 4))
            | _ \<Rightarrow> None))
      else None)"

text \<open>The events built from \<^verbatim>\<open>dates\<close>: one multi-day event, or one event per day.\<close>

definition eventsOfDates :: "EventType \<Rightarrow> jsString \<Rightarrow> Date list \<Rightarrow> BulkEvent list" where
  "eventsOfDates type title dates =
     (if length dates > 1 then
        (let startDate = formatISO (hd dates);
             endDate = formatISO (last dates)
         in [\<lparr> be_type = type, be_title = title, be_date = startDate,
               be_startDate = Some startDate, be_endDate = Some endDate \<rparr>])
      else
        map (\<lambda>d. \<lparr> be_type = type, be_title = title, be_date = formatISO d,
                    be_startDate = None, be_endDate = None \<rparr>) dates)"

text \<open>
  The normalisation of a trimmed line: dash variants become hyphens, every hyphen is
  surrounded by single spaces, and parenthesised groups are dropped.
\<close>

definition normalizeLine :: "jsString \<Rightarrow> jsString" where
  "normalizeLine raw =
     (let s = replaceAll (replaceAll raw dashRegex (js ''-'')) hyphenRegex (js '' - '')
      in trim (replaceAll s parenRegex []))"

text \<open>
  The split into \<^verbatim>\<open>titlePart\<close> and \<^verbatim>\<open>datePart\<close> at the first month token; the index is
  looked up in the lower-cased line.
\<close>

definition splitTitleDate :: "jsString \<Rightarrow> jsString \<times> jsString" where
  "splitTitleDate s =
     (case match s monthRegex of
        Some m \<Rightarrow>
          (let idx = indexOf (toLowerCase s) (toLowerCase (m_text m))
           in (cleanTitle (slice s 0 idx), sliceFrom s idx))
      | None \<Rightarrow> (cleanTitle s, s))"

definition parseLineToEvents :: "(jsString \<Rightarrow> chronoResult) \<Rightarrow> jsString \<Rightarrow> BulkEvent list" where
  "parseLineToEvents chrono line =
     (let raw = trim line in
      if raw = [] then []
      else
        (let s = normalizeLine raw;
             weekOf = test weekOfRegex s;
             (titlePart, datePart) = splitTitleDate s
         in (case lineDates chrono weekOf datePart of
               None \<Rightarrow> []
             | Some dates \<Rightarrow>
                 (let title = (if cleanTitle titlePart = [] then js ''Event''
                               else cleanTitle titlePart);
                      type = guessType title
                  in eventsOfDates type title dates))))"

section \<open>The natural-language parser (dateParser.ts)\<close>

record ParsedEvent =
  pe_title :: jsString
  pe_date :: jsString
  pe_endDate :: "jsString option"
  pe_startTime :: "jsString option"
  pe_endTime :: "jsString option"
  pe_type :: "EventType option"

text \<open>The keyword scan over the trimmed, lower-cased input; \<open>None\<close> leaves the type unset.\<close>

definition inferType :: "jsString \<Rightarrow> EventType option" where
  "inferType cleanInput =
     (if includesStr cleanInput (js ''planning'') \<or> includesStr cleanInput (js ''pi planning'')
         \<or> includesStr cleanInput (js ''qbr planning'') then Some PLANNING
      else if includesStr cleanInput (js ''monthly review'')
         \<or> includesStr cleanInput (js ''month review'')
         \<or> includesStr cleanInput (js ''monthly'') then Some MONTHLY_REVIEW
      else if includesStr cleanInput (js ''meeting'') \<or> includesStr cleanInput (js ''standup'')
         \<or> includesStr cleanInput (js ''review'') \<or> includesStr cleanInput (js ''retrospective'')
         \<or> includesStr cleanInput (js ''qbr'') then Some MEETING
      else if includesStr cleanInput (js ''holiday'') \<or> includesStr cleanInput (js ''vacation'')
         \<or> includesStr cleanInput (js ''thanksgiving'') \<or> includesStr cleanInput (js ''veterans'')
         \<or> includesStr cleanInput (js ''christmas'') then Some HOLIDAYS
      else None)"

text \<open>\<^verbatim>\<open>(jan|feb|mar|apr|may|jun|jul|aug|sep|oct|nov|dec)\<close> with the flag \<^verbatim>\<open>i\<close>\<close>

definition shortMonth :: regex where
  "shortMonth = alts (map litI [''jan'', ''feb'', ''mar'', ''apr'', ''may'', ''jun'', ''jul'',
                               ''aug'', ''sep'', ''oct'', ''nov'', ''dec''])"

text \<open>\<^verbatim>\<open>\s*-\s*\<close>\<close>

definition spacedHyphen :: regex where
  "spacedHyphen = seqs [Star Space, Cls (Unit 45), Star Space]"

text \<open>
  \<^verbatim>\<open>dateRangePatterns\<close>:
  \<^verbatim>\<open>/(\d{1,2})\s*-\s*(\d{1,2})\s+(jan|...|dec)/i\<close>,
  \<^verbatim>\<open>/(\d{1,2})\/(\d{1,2})\s*-\s*(\d{1,2})\/(\d{1,2})/\<close> and
  \<^verbatim>\<open>/(jan|...|dec)\s+(\d{1,2})\s*-\s*(\d{1,2})/i\<close>
\<close>

definition dateRangePatterns :: "RegExp list" where
  "dateRangePatterns =
     [seqs [Group 1 digits12, spacedHyphen, Group 2 digits12, oneOrMore Space, Group 3 shortMonth],
      seqs [Group 1 digits12, Cls (Unit 47), Group 2 digits12, spacedHyphen,
            Group 3 digits12, Cls (Unit 47), Group 4 digits12],
      seqs [Group 1 shortMonth, oneOrMore Space, Group 2 digits12, spacedHyphen, Group 3 digits12]]"

text \<open>
  \<^verbatim>\<open>datePatterns\<close>:
  \<^verbatim>\<open>/(\d{1,2})\s+(jan|...|dec)/i\<close>, \<^verbatim>\<open>/(\d{1,2})\/(\d{1,2})\/(\d{4})/\<close>,
  \<^verbatim>\<open>/(\d{1,2})\/(\d{1,2})/\<close>, \<^verbatim>\<open>/(today|tomorrow)/i\<close> and
  \<^verbatim>\<open>/(monday|tuesday|wednesday|thursday|friday|saturday|sunday)/i\<close>
\<close>

definition datePatterns :: "RegExp list" where
  "datePatterns =
     [seqs [Group 1 digits12, oneOrMore Space, Group 2 shortMonth],
      seqs [Group 1 digits12, Cls (Unit 47), Group 2 digits12, Cls (Unit 47), Group 3 digits4],
      seqs [Group 1 digits12, Cls (Unit 47), Group 2 digits12],
      Group 1 (alts (map litI [''today'', ''tomorrow''])),
      Group 1 (alts (map litI [''monday'', ''tuesday'', ''wednesday'', ''thursday'', ''friday'',
                               ''saturday'', ''sunday'']))]"

text \<open>
  \<^verbatim>\<open>timePatterns\<close>:
  \<^verbatim>\<open>/(\d{1,2})\s*-\s*(\d{1,2})\s*(am|pm)?/i\<close>,
  \<^verbatim>\<open>/(\d{1,2}):(\d{2})\s*-\s*(\d{1,2}):(\d{2})/\<close> and \<^verbatim>\<open>/(\d{1,2})\s*(am|pm)/i\<close>
\<close>

definition amPm :: regex where
  "amPm = alts (map litI [''am'', ''pm''])"

definition timePatterns :: "RegExp list" where
  "timePatterns =
     [seqs [Group 1 digits12, spacedHyphen, Group 2 digits12, Star Space, Opt (Group 3 amPm)],
      seqs [Group 1 digits12, Cls (Unit 58), Group 2 digits2, spacedHyphen,
            Group 3 digits12, Cls (Unit 58), Group 4 digits2],
      seqs [Group 1 digits12, Star Space, Group 2 amPm]]"

text \<open>
  The patterns removed from the title:
  \<^verbatim>\<open>/\s+(on|at)?\s+\d{1,2}\s+(jan|...|dec)/i\<close>, \<^verbatim>\<open>/\s+(today|tomorrow)/i\<close>,
  \<^verbatim>\<open>/\s+\d{1,2}\/\d{1,2}(\/\d{4})?/i\<close>, and
  \<^verbatim>\<open>/\s+\d{1,2}\s*-\s*\d{1,2}\s*(am|pm)?/i\<close>, \<^verbatim>\<open>/\s+\d{1,2}:\d{2}\s*-\s*\d{1,2}:\d{2}/i\<close>,
  \<^verbatim>\<open>/\s+\d{1,2}\s*(am|pm)/i\<close>
\<close>

definition titleDatePatterns :: "RegExp list" where
  "titleDatePatterns =
     [seqs [oneOrMore Space, Opt (Group 1 (alts (map litI [''on'', ''at'']))), oneOrMore Space,
            digits12, oneOrMore Space, Group 2 shortMonth],
      seqs [oneOrMore Space, Group 1 (alts (map litI [''today'', ''tomorrow'']))],
      seqs [oneOrMore Space, digits12, Cls (Unit 47), digits12,
            Opt (Group 1 (Seq (Cls (Unit 47)) digits4))]]"

definition titleTimePatterns :: "RegExp list" where
  "titleTimePatterns =
     [seqs [oneOrMore Space, digits12, spacedHyphen, digits12, Star Space, Opt (Group 1 amPm)],
      seqs [oneOrMore Space, digits12, Cls (Unit 58), digits2, spacedHyphen,
            digits12, Cls (Unit 58), digits2],
      seqs [oneOrMore Space, digits12, Star Space, Group 1 amPm]]"

text \<open>
  A loop \<^verbatim>\<open>for (const pattern of patterns) { const match = s.match(pattern); if (match) { ...; break; } }\<close>
  runs its body on the match of the first pattern that matches.
\<close>

fun firstMatch :: "RegExp list \<Rightarrow> jsString \<Rightarrow> MatchResult option" where
  "firstMatch [] s = None"
| "firstMatch (p # ps) s = (case match s p of Some m \<Rightarrow> Some m | None \<Rightarrow> firstMatch ps s)"

text \<open>Successive \<^verbatim>\<open>title = title.replace(pattern, '')\<close>.\<close>

fun removeEach :: "RegExp list \<Rightarrow> jsString \<Rightarrow> jsString" where
  "removeEach [] s = s"
| "removeEach (p # ps) s = removeEach ps (replaceFirst s p [])"

text \<open>\<^verbatim>\<open>monthMap\<close>; a key that is not a property gives \<^verbatim>\<open>undefined\<close>.\<close>

definition monthMap :: "jsString \<Rightarrow> nat option" where
  "monthMap = map_of [(js ''jan'', 0), (js ''feb'', 1), (js ''mar'', 2), (js ''apr'', 3),
      (js ''may'', 4), (js ''jun'', 5), (js ''jul'', 6), (js ''aug'', 7), (js ''sep'', 8),
      (js ''oct'', 9), (js ''nov'', 10), (js ''dec'', 11)]"

text \<open>The text built from year, month text and day: year, dash, month, dash, day padded to two.\<close>

definition isoOf :: "int \<Rightarrow> jsString \<Rightarrow> nat \<Rightarrow> jsString" where
  "isoOf year monthStr day =
     intToString year @ js ''-'' @ monthStr @ js ''-'' @ padStart0 2 (natToString day)"

text \<open>
  The body of the date-range loop for a match: the values given to \<^verbatim>\<open>parsedDate\<close> and
  \<^verbatim>\<open>parsedEndDate\<close> (\<open>None\<close> where the body assigns nothing). The three branches are
  tested in the order of the source.
\<close>

definition rangeOfMatch :: "int \<Rightarrow> MatchResult \<Rightarrow> jsString option \<times> jsString option" where
  "rangeOfMatch year m =
     (if truthy (grp m 3) \<and> truthy (grp m 1) \<and> truthy (grp m 2) then
        (case monthMap (toLowerCase (str (grp m 3))) of
           None \<Rightarrow> (None, None)
         | Some month \<Rightarrow>
             (let startDay = parseInt (str (grp m 1));
                  endDay = parseInt (str (grp m 2));
                  monthStr = padStart0 2 (natToString (month + 1))
              in (Some (isoOf year monthStr startDay), Some (isoOf year monthStr endDay))))
      else if truthy (grp m 1) \<and> truthy (grp m 2) \<and> truthy (grp m 3) \<and> truthy (grp m 4) then
        (let startMonth = parseInt (str (grp m 1));
             startDay = parseInt (str (grp m 2));
             endMonth = parseInt (str (grp m 3));
             endDay = parseInt (str (grp m 4))
         in (Some (isoOf year (padStart0 2 (natToString startMonth)) startDay),
             Some (isoOf year (padStart0 2 (natToString endMonth)) endDay)))
      else if truthy (grp m 1) \<and> truthy (grp m 2) \<and> truthy (grp m 3) then
        (case monthMap (toLowerCase (str (grp m 1))) of
           None \<Rightarrow> (None, None)
         | Some month \<Rightarrow>
             (let startDay = parseInt (str (grp m 2));
                  endDay = parseInt (str (grp m 3));
                  monthStr = padStart0 2 (natToString (month + 1))
              in (Some (isoOf year monthStr startDay), Some (isoOf year monthStr endDay))))
      else (None, None))"

text \<open>
  The body of the single-date loop for a match: the value given to \<^verbatim>\<open>parsedDate\<close>, \<open>None\<close>
  when the body assigns nothing. Tomorrow is \<^verbatim>\<open>setDate(getDate() + 1)\<close> on a copy of today.
\<close>

definition singleOfMatch :: "Date \<Rightarrow> MatchResult \<Rightarrow> jsString option" where
  "singleOfMatch today m =
     (if toLowerCase (m_text m) = js ''today'' then Some (formatDateSafe today)
      else if toLowerCase (m_text m) = js ''tomorrow'' then Some (formatDateSafe (today + 1))
      else if truthy (grp m 1) \<and> truthy (grp m 2) then
        (case monthMap (toLowerCase (str (grp m 2))) of
           None \<Rightarrow> None
         | Some month \<Rightarrow>
             (let year = getFullYear today;
                  day = parseInt (str (grp m 1));
                  monthStr = padStart0 2 (natToString (month + 1))
              in Some (isoOf year monthStr day)))
      else None)"

text \<open>\<^verbatim>\<open>parsedDate\<close> and \<^verbatim>\<open>parsedEndDate\<close> after both date loops.\<close>

definition parseDates :: "Date \<Rightarrow> jsString \<Rightarrow> jsString option \<times> jsString option" where
  "parseDates today cleanInput =
     (let (parsedDate, parsedEndDate) =
            (case firstMatch dateRangePatterns cleanInput of
               None \<Rightarrow> (None, None)
             | Some m \<Rightarrow> rangeOfMatch (getFullYear today) m)
      in if \<not> truthy parsedDate then
           (case firstMatch datePatterns cleanInput of
              None \<Rightarrow> (parsedDate, parsedEndDate)
            | Some m \<Rightarrow>
                (case singleOfMatch today m of
                   None \<Rightarrow> (parsedDate, parsedEndDate)
                 | Some d \<Rightarrow> (Some d, parsedEndDate)))
         else (parsedDate, parsedEndDate))"

text \<open>The hour text: the number padded to two digits, followed by \<^verbatim>\<open>:00\<close>.\<close>

definition hourText :: "nat \<Rightarrow> jsString" where
  "hourText h = padStart0 2 (natToString h) @ js '':00''"

text \<open>The body of the time loop for a match: \<^verbatim>\<open>startTime\<close> and \<^verbatim>\<open>endTime\<close>.\<close>

definition timesOfMatch :: "MatchResult \<Rightarrow> jsString option \<times> jsString option" where
  "timesOfMatch m =
     (if truthy (grp m 3) \<and> truthy (grp m 1) \<and> truthy (grp m 2) then
        (let isPM = (toLowerCase (str (grp m 3)) = js ''pm'');
             start = parseInt (str (grp m 1));
             stop = parseInt (str (grp m 2));
             start' = (if isPM \<and> start \<noteq> 12 then start + 12 else start);
             stop' = (if isPM \<and> stop \<noteq> 12 then stop + 12 else stop)
         in (Some (hourText start'), Some (hourText stop')))
      else if truthy (grp m 1) \<and> truthy (grp m 2) then
        (let hour = parseInt (str (grp m 1));
             isPM = (truthy (grp m 2) \<and> toLowerCase (str (grp m 2)) = js ''pm'');
             hour' = (if isPM \<and> hour \<noteq> 12 then hour + 12 else hour)
         in (Some (hourText hour'), None))
      else (None, None))"

definition parseTimes :: "jsString \<Rightarrow> jsString option \<times> jsString option" where
  "parseTimes cleanInput =
     (case firstMatch timePatterns cleanInput of
        None \<Rightarrow> (None, None)
      | Some m \<Rightarrow> timesOfMatch m)"

text \<open>The title: the input with the date and time references removed, trimmed.\<close>

definition extractTitle ::
  "jsString \<Rightarrow> jsString option \<Rightarrow> jsString option \<Rightarrow> jsString option \<Rightarrow> jsString" where
  "extractTitle input parsedDate startTime endTime =
     (let title1 = (if truthy parsedDate then removeEach titleDatePatterns input else input);
          title2 = (if truthy startTime \<or> truthy endTime
                    then removeEach titleTimePatterns title1 else title1)
      in trim title2)"

text \<open>
  \<^verbatim>\<open>parseNaturalLanguage(input)\<close>; the current date \<^verbatim>\<open>new Date()\<close> is the parameter
  \<open>today\<close>, \<open>None\<close> is \<^verbatim>\<open>null\<close>.
\<close>

definition parseNaturalLanguage :: "Date \<Rightarrow> jsString \<Rightarrow> ParsedEvent option" where
  "parseNaturalLanguage today input =
     (let cleanInput = toLowerCase (trim input);
          type = inferType cleanInput;
          (parsedDate, parsedEndDate) = parseDates today cleanInput;
          (startTime, endTime) = parseTimes cleanInput;
          title = extractTitle input parsedDate startTime endTime
      in if title = [] \<or> \<not> truthy parsedDate then None
         else Some \<lparr> pe_title = title, pe_date = str parsedDate, pe_endDate = parsedEndDate,
                     pe_startTime = startTime, pe_endTime = endTime, pe_type = type \<rparr>)"

section \<open>Specification vocabulary and example data for the parsers\<close>

text \<open>A text occurs inside another one.\<close>

definition hasSubstring :: "jsString \<Rightarrow> jsString \<Rightarrow> bool" where
  "hasSubstring s sub = (\<exists>a b. s = a @ sub @ b)"

text \<open>
  The two shapes of an event draft: single-day (no start date and no end date; times
  allowed) and multi-day (start date and end date, no times). Anything else mixes the
  two. A bulk event has no time fields, a parsed event has no start date field.
\<close>

datatype draftShape = SingleDay | MultiDay | Mixed

definition shapeOf ::
  "jsString option \<Rightarrow> jsString option \<Rightarrow> jsString option \<Rightarrow> jsString option \<Rightarrow> draftShape" where
  "shapeOf startD endD startT endT =
     (if startD = None \<and> endD = None then SingleDay
      else if startD \<noteq> None \<and> endD \<noteq> None \<and> startT = None \<and> endT = None
      then MultiDay
      else Mixed)"

definition bulkShape :: "BulkEvent \<Rightarrow> draftShape" where
  "bulkShape e = shapeOf (be_startDate e) (be_endDate e) None None"

definition parsedShape :: "ParsedEvent \<Rightarrow> draftShape" where
  "parsedShape r = shapeOf None (pe_endDate r) (pe_startTime r) (pe_endTime r)"

text \<open>Example data: the day 2025-07-09 as the current date, and parser results.\<close>

definition julyNinth :: Date where "julyNinth = 20278"

definition teamMeeting :: ParsedEvent where
  "teamMeeting = \<lparr> pe_title = js ''Team Meeting'', pe_date = js ''2025-07-10'',
            pe_endDate = None, pe_startTime = Some (js ''14:00''),
            pe_endTime = Some (js ''16:00''), pe_type = Some MEETING \<rparr>"

definition conference :: ParsedEvent where
  "conference = \<lparr> pe_title = js ''Confoct'', pe_date = js ''2025-10-15'',
            pe_endDate = Some (js ''2025-10-17''), pe_startTime = Some (js ''15:00''),
            pe_endTime = None, pe_type = None \<rparr>"

definition leaderReview :: BulkEvent where
  "leaderReview = \<lparr> be_type = MEETING, be_title = js ''Product Mngt Leader Review'',
        be_date = js ''2025-07-09'', be_startDate = Some (js ''2025-07-09''),
        be_endDate = Some (js ''2025-07-10'') \<rparr>"

text \<open>
  Bounds on what a capture group can hold. \<open>maxLen\<close> is the longest text a star-free
  expression matches; \<open>groupsOK B r\<close> says that every group \<open>n\<close> of \<open>r\<close> is star-free and
  matches at most \<open>B n\<close> code units; \<open>pendingOK\<close> extends this to a work list of the
  matcher, where an open group has already consumed part of its text.
\<close>

fun maxLen :: "regex \<Rightarrow> nat" where
  "maxLen (Cls c) = 1"
| "maxLen (Seq a b) = maxLen a + maxLen b"
| "maxLen (Alt a b) = max (maxLen a) (maxLen b)"
| "maxLen (Opt a) = maxLen a"
| "maxLen (Group n a) = maxLen a"
| "maxLen r = 0"

fun starFree :: "regex \<Rightarrow> bool" where
  "starFree (Star c) = False"
| "starFree (Seq a b) = (starFree a \<and> starFree b)"
| "starFree (Alt a b) = (starFree a \<and> starFree b)"
| "starFree (Opt a) = starFree a"
| "starFree (Group n a) = starFree a"
| "starFree r = True"

fun groupsOK :: "(nat \<Rightarrow> nat) \<Rightarrow> regex \<Rightarrow> bool" where
  "groupsOK B (Group n a) = (starFree a \<and> maxLen a \<le> B n \<and> groupsOK B a)"
| "groupsOK B (Seq a b) = (groupsOK B a \<and> groupsOK B b)"
| "groupsOK B (Alt a b) = (groupsOK B a \<and> groupsOK B b)"
| "groupsOK B (Opt a) = groupsOK B a"
| "groupsOK B r = True"

fun pendingOK :: "(nat \<Rightarrow> nat) \<Rightarrow> work list \<Rightarrow> jsString \<Rightarrow> nat \<Rightarrow> bool \<Rightarrow> bool" where
  "pendingOK B [] s acc sf = True"
| "pendingOK B (Match r # k) s acc sf =
     (groupsOK B r \<and> pendingOK B k s (acc + maxLen r) (sf \<and> starFree r))"
| "pendingOK B (CloseGroup n s0 # k) s acc sf =
     (sf \<and> length s \<le> length s0 \<and> (length s0 - length s) + acc \<le> B n \<and> pendingOK B k s acc sf)"

definition capsOK :: "(nat \<Rightarrow> nat) \<Rightarrow> captures \<Rightarrow> bool" where
  "capsOK B caps = (\<forall>(n, w) \<in> set caps. length w \<le> B n)"

text \<open>
  The order of JavaScript strings: code unit by code unit. ISO dates of one width are
  ordered as their texts are.
\<close>

fun strLess :: "jsString \<Rightarrow> jsString \<Rightarrow> bool" where
  "strLess [] [] = False"
| "strLess [] (y # ys) = True"
| "strLess (x # xs) [] = False"
| "strLess (x # xs) (y # ys) = (x < y \<or> (x = y \<and> strLess xs ys))"

text \<open>Length bounds of the capture groups of the three date range patterns.\<close>

definition rangeBound0 :: "nat \<Rightarrow> nat" where
  "rangeBound0 n = (if n = 3 then 3 else 2)"

definition rangeBound1 :: "nat \<Rightarrow> nat" where
  "rangeBound1 n = 2"

definition rangeBound2 :: "nat \<Rightarrow> nat" where
  "rangeBound2 n = (if n = 1 then 3 else 2)"

text \<open>Example results with a range written in descending order.\<close>

definition trip :: ParsedEvent where
  "trip = \<lparr> pe_title = js ''Tripoct'', pe_date = js ''2025-10-17'',
            pe_endDate = Some (js ''2025-10-15''), pe_startTime = Some (js ''17:00''),
            pe_endTime = None, pe_type = None \<rparr>"

definition offsite :: BulkEvent where
  "offsite = \<lparr> be_type = PLANNING, be_title = js ''Offsite'',
        be_date = js ''2025-07-10'', be_startDate = Some (js ''2025-07-10''),
        be_endDate = Some (js ''2025-07-09'') \<rparr>"

section \<open>Properties of the lane assignment\<close>

lemma set_insertBy: "set (insertBy cmp x xs) = insert x (set xs)"
  by (induction xs) auto

lemma set_sortBy: "set (sortBy cmp xs) = set xs"
  unfolding sortBy_def by (induction xs) (auto simp: set_insertBy)

lemma distinct_map_insertBy:
  "distinct (map f (insertBy cmp x xs)) = distinct (map f (x # xs))"
  by (induction xs) (auto simp: set_insertBy)

lemma distinct_map_sortBy: "distinct (map f (sortBy cmp xs)) = distinct (map f xs)"
  unfolding sortBy_def
  by (induction xs) (auto simp: distinct_map_insertBy set_sortBy[unfolded sortBy_def])

lemma scanLanes_Some:
  "scanLanes iv lanes = Some (i, lanes') \<Longrightarrow>
     i < length lanes \<and> canFit iv (lanes ! i) \<and> lanes' = lanes[i := lanes ! i @ [toSlot iv]]"
proof (induction lanes arbitrary: i lanes')
  case Nil
  then show ?case by simp
next
  case (Cons lane rest)
  show ?case
  proof (cases "canFit iv lane")
    case True
    with Cons.prems show ?thesis by auto
  next
    case False
    with Cons.prems obtain j rest' where
      r: "scanLanes iv rest = Some (j, rest')" and i: "i = Suc j" and l: "lanes' = lane # rest'"
      by (auto split: option.splits)
    from Cons.IH[OF r] i l show ?thesis by simp
  qed
qed

lemma canFit_laneOk:
  "laneOk lane \<Longrightarrow> canFit iv lane \<Longrightarrow> laneOk (lane @ [toSlot iv])"
  unfolding laneOk_def canFit_def
  by (auto simp: sorted_wrt_append list_all_iff overlaps_def disjointSlots_def toSlot_def)


lemma lanesInv_init: "lanesInv ([], Map.empty) []"
  by (simp add: lanesInv_def)

lemma lanesInv_step:
  assumes inv: "lanesInv st processed"
    and fresh: "event_id (iv_event iv) \<notin> (\<lambda>iv. event_id (iv_event iv)) ` set processed"
  shows "lanesInv (assignStep st iv) (processed @ [iv])"
proof -
  obtain lanes lanesOf where st: "st = (lanes, lanesOf)" by (cases st)
  from inv st have ok: "\<And>lane. lane \<in> set lanes \<Longrightarrow> laneOk lane"
    and old: "\<And>p. p \<in> set processed \<Longrightarrow> \<exists>l. lanesOf (event_id (iv_event p)) = Some l \<and>
            l < length lanes \<and> toSlot p \<in> set (lanes ! l)"
    and dm: "dom lanesOf = (\<lambda>iv. event_id (iv_event iv)) ` set processed"
    by (auto simp: lanesInv_def)
  show ?thesis
  proof (cases "scanLanes iv lanes")
    case None
    let ?lanes' = "lanes @ [[toSlot iv]]"
    let ?m' = "lanesOf(event_id (iv_event iv) \<mapsto> length lanes)"
    have step: "assignStep st iv = (?lanes', ?m')"
      by (simp add: assignStep_def st None)
    have a: "\<forall>lane \<in> set ?lanes'. laneOk lane"
      using ok by (auto simp: laneOk_def)
    have b: "\<exists>l. ?m' (event_id (iv_event p)) = Some l \<and> l < length ?lanes' \<and>
               toSlot p \<in> set (?lanes' ! l)" if p: "p \<in> set (processed @ [iv])" for p
    proof (cases "p = iv")
      case True
      then show ?thesis by simp
    next
      case False
      with p have pp: "p \<in> set processed" by simp
      with fresh have ne: "event_id (iv_event p) \<noteq> event_id (iv_event iv)"
        by (metis imageI)
      from old[OF pp] obtain l where "lanesOf (event_id (iv_event p)) = Some l"
        "l < length lanes" "toSlot p \<in> set (lanes ! l)" by blast
      with ne show ?thesis by (auto simp: nth_append)
    qed
    have c: "dom ?m' = (\<lambda>iv. event_id (iv_event iv)) ` set (processed @ [iv])"
      using dm by auto
    show ?thesis unfolding step lanesInv_def prod.case using a b c by blast
  next
    case (Some r)
    obtain i lanes' where r: "r = (i, lanes')" by (cases r)
    from scanLanes_Some[OF Some[unfolded r]]
    have i: "i < length lanes" and fit: "canFit iv (lanes ! i)"
      and l': "lanes' = lanes[i := lanes ! i @ [toSlot iv]]" by auto
    let ?m' = "lanesOf(event_id (iv_event iv) \<mapsto> i)"
    have step: "assignStep st iv = (lanes', ?m')"
      by (simp add: assignStep_def st Some r)
    have a: "\<forall>lane \<in> set lanes'. laneOk lane"
    proof
      fix lane assume "lane \<in> set lanes'"
      then have "lane \<in> set lanes \<or> lane = lanes ! i @ [toSlot iv]"
        unfolding l' using set_update_subset_insert by fastforce
      then show "laneOk lane"
        using ok canFit_laneOk[OF _ fit] i nth_mem by blast
    qed
    have b: "\<exists>l. ?m' (event_id (iv_event p)) = Some l \<and> l < length lanes' \<and>
               toSlot p \<in> set (lanes' ! l)" if p: "p \<in> set (processed @ [iv])" for p
    proof (cases "p = iv")
      case True
      then show ?thesis using i by (simp add: l')
    next
      case False
      with p have pp: "p \<in> set processed" by simp
      with fresh have ne: "event_id (iv_event p) \<noteq> event_id (iv_event iv)"
        by (metis imageI)
      from old[OF pp] obtain l where "lanesOf (event_id (iv_event p)) = Some l"
        "l < length lanes" "toSlot p \<in> set (lanes ! l)" by blast
      with ne show ?thesis by (cases "l = i") (auto simp: l')
    qed
    have c: "dom ?m' = (\<lambda>iv. event_id (iv_event iv)) ` set (processed @ [iv])"
      using dm by auto
    show ?thesis unfolding step lanesInv_def prod.case using a b c by blast
  qed
qed

lemma lanesInv_foldl:
  "lanesInv st processed \<Longrightarrow>
   distinct (map (\<lambda>iv. event_id (iv_event iv)) (processed @ ivs)) \<Longrightarrow>
   lanesInv (foldl assignStep st ivs) (processed @ ivs)"
proof (induction ivs arbitrary: st processed)
  case Nil
  then show ?case by simp
next
  case (Cons iv ivs)
  have "lanesInv (assignStep st iv) (processed @ [iv])"
    using Cons.prems by (intro lanesInv_step) auto
  from Cons.IH[OF this] Cons.prems(2) show ?case by simp
qed

lemma greedyLanes_inv:
  "distinct (map (\<lambda>iv. event_id (iv_event iv)) ivs) \<Longrightarrow> lanesInv (greedyLanes ivs) ivs"
  unfolding greedyLanes_def using lanesInv_foldl[OF lanesInv_init, of ivs] by simp

lemma laneOk_members:
  "laneOk lane \<Longrightarrow> a \<in> set lane \<Longrightarrow> b \<in> set lane \<Longrightarrow> a \<noteq> b \<Longrightarrow> disjointSlots a b"
  unfolding laneOk_def
  by (metis disjointSlots_def in_set_conv_nth linorder_neqE_nat sorted_wrt_nth_less)

lemma iv_event_toInterval [simp]: "iv_event (toInterval weekDays ev) = ev"
  by (simp add: toInterval_def Let_def)

lemma weekIntervals_ids:
  "distinct (map event_id events) \<Longrightarrow>
   distinct (map (\<lambda>iv. event_id (iv_event iv)) (weekIntervals events weekDays))"
  unfolding weekIntervals_def
  by (induction events) auto

lemma weekIntervals_member:
  "iv \<in> set (weekIntervals events weekDays) \<Longrightarrow>
   \<exists>ev \<in> set events. iv = toInterval weekDays ev"
  unfolding weekIntervals_def by auto

text \<open>
  Claim C3. Event ids are the primary key of the event store, so the events handed to
  \<^verbatim>\<open>assignEventLanes\<close> carry pairwise distinct ids. Whenever two different events of the
  input are mapped to the same lane index by the returned \<^verbatim>\<open>eventLanes\<close> map, their week
  intervals do not overlap: one ends before the other starts.
\<close>

theorem assignEventLanes_same_lane_disjoint:
  assumes ids: "distinct (map event_id events)"
    and e1: "e1 \<in> set events" and e2: "e2 \<in> set events" and ne: "e1 \<noteq> e2"
    and l1: "eventLanes (assignEventLanes events weekDays) (event_id e1) = Some l"
    and l2: "eventLanes (assignEventLanes events weekDays) (event_id e2) = Some l"
  shows "iv_end (toInterval weekDays e1) < iv_start (toInterval weekDays e2) \<or>
         iv_end (toInterval weekDays e2) < iv_start (toInterval weekDays e1)"
proof -
  let ?ivs = "sortBy compareIntervals (weekIntervals events weekDays)"
  obtain lanes lanesOf where g: "greedyLanes ?ivs = (lanes, lanesOf)"
    by (cases "greedyLanes ?ivs")
  from e1 have nonempty: "length events \<noteq> 0" by auto
  have res: "eventLanes (assignEventLanes events weekDays) = lanesOf"
    using nonempty by (simp add: assignEventLanes_def g)
  have d: "distinct (map (\<lambda>iv. event_id (iv_event iv)) ?ivs)"
    by (simp add: distinct_map_sortBy weekIntervals_ids[OF ids])
  from greedyLanes_inv[OF d] g
  have ok: "\<And>lane. lane \<in> set lanes \<Longrightarrow> laneOk lane"
    and placed: "\<And>p. p \<in> set ?ivs \<Longrightarrow> \<exists>k. lanesOf (event_id (iv_event p)) = Some k \<and>
            k < length lanes \<and> toSlot p \<in> set (lanes ! k)"
    and dm: "dom lanesOf = (\<lambda>iv. event_id (iv_event iv)) ` set ?ivs"
    by (auto simp: lanesInv_def)
  have find: "toInterval weekDays e \<in> set ?ivs"
    if e: "e \<in> set events" and le: "lanesOf (event_id e) = Some l" for e
  proof -
    from le dm obtain p where p: "p \<in> set ?ivs" and pid: "event_id (iv_event p) = event_id e"
      by (metis (mono_tags, lifting) domI imageE)
    from p have "p \<in> set (weekIntervals events weekDays)" by (simp add: set_sortBy)
    from weekIntervals_member[OF this]
    obtain ev where ev: "ev \<in> set events" and pe: "p = toInterval weekDays ev" by blast
    from pid pe have "event_id ev = event_id e" by simp
    with ids ev e have "ev = e" by (meson distinct_map inj_onD)
    with p pe show ?thesis by simp
  qed
  let ?a = "toInterval weekDays e1" and ?b = "toInterval weekDays e2"
  from find[OF e1 l1[unfolded res]] placed[of ?a] l1[unfolded res]
  have a: "l < length lanes" "toSlot ?a \<in> set (lanes ! l)" by auto
  from find[OF e2 l2[unfolded res]] placed[of ?b] l2[unfolded res]
  have b: "toSlot ?b \<in> set (lanes ! l)" by auto
  from ids e1 e2 ne have "event_id e1 \<noteq> event_id e2"
    by (meson distinct_map inj_onD)
  then have "toSlot ?a \<noteq> toSlot ?b" by (auto simp: toSlot_def)
  from laneOk_members[OF ok[OF nth_mem[OF a(1)]] a(2) b this]
  show ?thesis by (simp add: disjointSlots_def toSlot_def)
qed

text \<open>Witness for C3: the events b ([0,1]) and c ([2,3]) share lane 1 in the example week.\<close>

theorem assignEventLanes_same_lane_disjoint_witness:
  "iv_end (toInterval weekOfSept1 evB) < iv_start (toInterval weekOfSept1 evC) \<or>
   iv_end (toInterval weekOfSept1 evC) < iv_start (toInterval weekOfSept1 evB)"
proof -
  have l: "eventLanes (assignEventLanes [evA, evB, evC] weekOfSept1) (event_id evB) = Some 1"
     "eventLanes (assignEventLanes [evA, evB, evC] weekOfSept1) (event_id evC) = Some 1"
    by (simp_all add: evA_def evB_def evC_def weekOfSept1_def assignEventLanes_def
      weekIntervals_def toInterval_def sortBy_def greedyLanes_def assignStep_def Let_def
      compareIntervals_def canFit_def overlaps_def toSlot_def)
  have d: "distinct (map event_id [evA, evB, evC])" by (simp add: evA_def evB_def evC_def)
  have ne: "evB \<noteq> evC" by (simp add: evB_def evC_def)
  show ?thesis
    by (rule assignEventLanes_same_lane_disjoint[OF d _ _ ne l]) simp_all
qed

subsection \<open>The example of three spans\<close>

lemma lanes_of_three:
  assumes A: "iv_start A = 0" "iv_end A = 4"
    and B: "iv_start B = 0" "iv_end B = 1"
    and C: "iv_start C = 2" "iv_end C = 3"
  shows "greedyLanes [A, B, C] =
           ([[toSlot A], [toSlot B, toSlot C]],
            [event_id (iv_event A) \<mapsto> 0, event_id (iv_event B) \<mapsto> 1, event_id (iv_event C) \<mapsto> 1])"
  using assms
  by (simp add: greedyLanes_def assignStep_def canFit_def overlaps_def toSlot_def)

lemma sort_of_three:
  assumes A: "iv_start A = 0" "iv_end A = 4"
    and B: "iv_start B = 0" "iv_end B = 1"
    and C: "iv_start C = 2" "iv_end C = 3"
    and xs: "xs = [A, B, C] \<or> xs = [A, C, B] \<or> xs = [B, A, C] \<or>
             xs = [B, C, A] \<or> xs = [C, A, B] \<or> xs = [C, B, A]"
  shows "sortBy compareIntervals xs = [A, B, C]"
  using xs A B C
  by (elim disjE) (simp_all add: sortBy_def compareIntervals_def)

text \<open>
  Claim C4. Three events whose week-relative spans are [0,4], [0,1] and [2,3], given in
  any order, are sorted to that order and placed greedily: [0,4] in lane 0, [0,1] and
  [2,3] together in lane 1, so \<^verbatim>\<open>maxLanes\<close> is 2.
\<close>

theorem three_spans_two_lanes:
  assumes a: "iv_start (toInterval weekDays a) = 0" "iv_end (toInterval weekDays a) = 4"
    and b: "iv_start (toInterval weekDays b) = 0" "iv_end (toInterval weekDays b) = 1"
    and c: "iv_start (toInterval weekDays c) = 2" "iv_end (toInterval weekDays c) = 3"
    and ids: "distinct [event_id a, event_id b, event_id c]"
    and events: "events = [a, b, c] \<or> events = [a, c, b] \<or> events = [b, a, c] \<or>
                 events = [b, c, a] \<or> events = [c, a, b] \<or> events = [c, b, a]"
  shows "maxLanes (assignEventLanes events weekDays) = 2 \<and>
         eventLanes (assignEventLanes events weekDays) (event_id a) = Some 0 \<and>
         eventLanes (assignEventLanes events weekDays) (event_id b) = Some 1 \<and>
         eventLanes (assignEventLanes events weekDays) (event_id c) = Some 1"
proof -
  let ?A = "toInterval weekDays a" and ?B = "toInterval weekDays b"
    and ?C = "toInterval weekDays c"
  let ?xs = "weekIntervals events weekDays"
  have xs: "?xs = [?A, ?B, ?C] \<or> ?xs = [?A, ?C, ?B] \<or> ?xs = [?B, ?A, ?C] \<or>
            ?xs = [?B, ?C, ?A] \<or> ?xs = [?C, ?A, ?B] \<or> ?xs = [?C, ?B, ?A]"
    using events a b c by (elim disjE) (simp_all add: weekIntervals_def)
  have s: "sortBy compareIntervals ?xs = [?A, ?B, ?C]"
    by (rule sort_of_three[OF a b c xs])
  have ne: "length events \<noteq> 0" using events by auto
  show ?thesis
    using ne ids
    by (simp add: assignEventLanes_def s lanes_of_three[OF a b c])
qed

lemma example_spans:
  "iv_start (toInterval weekOfSept1 evA) = 0" "iv_end (toInterval weekOfSept1 evA) = 4"
  "iv_start (toInterval weekOfSept1 evB) = 0" "iv_end (toInterval weekOfSept1 evB) = 1"
  "iv_start (toInterval weekOfSept1 evC) = 2" "iv_end (toInterval weekOfSept1 evC) = 3"
  by (simp_all add: toInterval_def weekOfSept1_def evA_def evB_def evC_def Let_def)

text \<open>Witness for C4 on the example week, with the events given in reverse order.\<close>

theorem three_spans_two_lanes_witness:
  "maxLanes (assignEventLanes [evC, evB, evA] weekOfSept1) = 2 \<and>
   eventLanes (assignEventLanes [evC, evB, evA] weekOfSept1) ''a'' = Some 0 \<and>
   eventLanes (assignEventLanes [evC, evB, evA] weekOfSept1) ''b'' = Some 1 \<and>
   eventLanes (assignEventLanes [evC, evB, evA] weekOfSept1) ''c'' = Some 1"
  using three_spans_two_lanes[of weekOfSept1 evA evB evC "[evC, evB, evA]"] example_spans
  by (simp add: evA_def evB_def evC_def)

subsection \<open>Which events receive a lane\<close>

lemma findIndex_upto:
  "findIndex (\<lambda>day. day = x) [a..b] = (if a \<le> x \<and> x \<le> b then x - a else - 1)"
proof (induction a b rule: upto.induct)
  case (1 i j)
  show ?case
  proof (cases "i \<le> j")
    case True
    then have u: "[i..j] = i # [i + 1..j]" by (simp add: upto_rec1)
    from 1[OF True] True show ?thesis
      unfolding u by (auto simp: Let_def)
  next
    case False
    then show ?thesis by simp
  qed
qed

lemma toInterval_consecutive:
  assumes "0 \<le> k"
  shows "iv_start (toInterval [monday..monday + k] ev) =
           (if monday \<le> date ev \<and> date ev \<le> monday + k then date ev - monday else 0)"
    and "iv_end (toInterval [monday..monday + k] ev) =
           (if monday \<le> endDate ev \<and> endDate ev \<le> monday + k then endDate ev - monday else k)"
  using assms by (auto simp: toInterval_def Let_def findIndex_upto)

lemma assigned_iff:
  assumes ids: "distinct (map event_id events)" and ev: "ev \<in> set events"
  shows "(event_id ev \<in> dom (eventLanes (assignEventLanes events weekDays))) =
         (iv_start (toInterval weekDays ev) \<le> iv_end (toInterval weekDays ev))"
proof -
  let ?ivs = "sortBy compareIntervals (weekIntervals events weekDays)"
  obtain lanes lanesOf where g: "greedyLanes ?ivs = (lanes, lanesOf)"
    by (cases "greedyLanes ?ivs")
  from ev have nonempty: "length events \<noteq> 0" by auto
  have res: "eventLanes (assignEventLanes events weekDays) = lanesOf"
    using nonempty by (simp add: assignEventLanes_def g)
  have d: "distinct (map (\<lambda>iv. event_id (iv_event iv)) ?ivs)"
    by (simp add: distinct_map_sortBy weekIntervals_ids[OF ids])
  from greedyLanes_inv[OF d] g
  have dm: "dom lanesOf = (\<lambda>iv. event_id (iv_event iv)) ` set (weekIntervals events weekDays)"
    by (auto simp: lanesInv_def set_sortBy)
  show ?thesis
  proof
    assume "event_id ev \<in> dom (eventLanes (assignEventLanes events weekDays))"
    with res dm obtain p where p: "p \<in> set (weekIntervals events weekDays)"
      and pid: "event_id (iv_event p) = event_id ev" by auto
    from p obtain e where e: "e \<in> set events" and pe: "p = toInterval weekDays e"
      and le: "iv_start p \<le> iv_end p" by (auto simp: weekIntervals_def)
    from pid pe have "event_id e = event_id ev" by simp
    with ids e ev have "e = ev" by (meson distinct_map inj_onD)
    with pe le show "iv_start (toInterval weekDays ev) \<le> iv_end (toInterval weekDays ev)" by simp
  next
    assume "iv_start (toInterval weekDays ev) \<le> iv_end (toInterval weekDays ev)"
    with ev have "toInterval weekDays ev \<in> set (weekIntervals events weekDays)"
      by (simp add: weekIntervals_def)
    then have "event_id ev \<in> (\<lambda>iv. event_id (iv_event iv)) ` set (weekIntervals events weekDays)"
      by (metis (mono_tags, lifting) image_eqI iv_event_toInterval)
    with res dm show "event_id ev \<in> dom (eventLanes (assignEventLanes events weekDays))" by simp
  qed
qed

lemma spansWeek_consecutive:
  "0 \<le> k \<Longrightarrow> spansWeek [monday..monday + k] ev = (monday \<le> endDate ev \<and> date ev \<le> monday + k)"
proof -
  assume k: "0 \<le> k"
  then have ne: "[monday..monday + k] \<noteq> []" by simp
  then obtain x xs where c: "[monday..monday + k] = x # xs" by (cases "[monday..monday + k]") auto
  have h: "hd [monday..monday + k] = monday" using k by (simp add: upto_rec1[of monday "monday + k"])
  have l: "last [monday..monday + k] = monday + k" using k by (simp add: upto_rec2[of monday "monday + k"])
  show ?thesis unfolding spansWeek_def using h l c by (simp split: list.splits)
qed

lemma intersectsWeek_consecutive:
  "intersectsWeek ev [monday..monday + k] =
     (\<exists>d. monday \<le> d \<and> d \<le> monday + k \<and> date ev \<le> d \<and> d \<le> endDate ev)"
  by (auto simp: intersectsWeek_def list_ex_iff inRange_def)


text \<open>
  The test of the call site matters: on its own the function keeps an event that lies
  wholly outside the week, with the full span, because both dates default. In the example
  the call site removes that event before the call.
\<close>

lemma assignEventLanes_unfiltered_event:
  "\<not> intersectsWeek evOut weekOfSept1 \<and>
   eventLanes (assignEventLanes [evOut] weekOfSept1) (event_id evOut) = Some 0 \<and>
   iv_start (toInterval weekOfSept1 evOut) = 0 \<and> iv_end (toInterval weekOfSept1 evOut) = 4"
  by (simp add: intersectsWeek_def inRange_def evOut_def weekOfSept1_def assignEventLanes_def
      weekIntervals_def toInterval_def sortBy_def greedyLanes_def assignStep_def Let_def)

lemma caller_filter_example:
  "weekSpanningEvents [evA, evB, evOut, evInv] weekOfSept1 = [evA, evB, evInv]"
  by (simp add: weekSpanningEvents_def spansWeek_def weekOfSept1_def evA_def evB_def evOut_def
      evInv_def)


section \<open>Evaluation support\<close>

text \<open>
  Concrete parser runs are evaluated by rewriting with the definitions. The bound value
  of a \<open>let\<close> is evaluated before its body is looked at.
\<close>

lemma Let_value_cong: "a = b \<Longrightarrow> Let a f = Let b f"
  by simp

lemmas cls_defs = isSpace_def isDigit_def isAlpha_def isUpper_def isLower_def isWordChar_def
lemmas rx_defs = oneOrMore_def digits12_def digits4_def digits2_def litI_def
lemmas date_defs = isLeapYear_def daysInMonth_def makeDay_def civil_def getFullYear_def
  getMonth_def getDate_def formatDateSafe_def formatISO_def addDays_def eachDayOfInterval_def
  wideMonths_def abbreviatedMonths_def narrowMonths_def parseMonthToken_def expectLiteral_def
  parseDayToken_def parseYearToken_def parseExact_def intToString_def
  natToString.simps padStart0.simps

lemmas str_defs = js_def trim_def trimStart_def trimEnd_def toLowerCase_def lowerUnit_def
  indexOf_def includesStr_def slice_def sliceFrom_def clampIndex_def
  parseInt_def match_def test_def grp_def truthy_def str_def replaceFirst_def
  replaceAll_def replaceAllFrom.simps
lemmas bulk_defs = guessType_def trailingParenRegex_def cleanTitle_def dashRegex_def
  hyphenRegex_def parenRegex_def weekOfRegex_def monthRegex_def range1_def range2_def
  monthDayYear_def range1Ends_def range1Dates_def range2Ends_def range2Dates_def lineDates_def intervalEnds_def eventsOfDates_def
  normalizeLine_def splitTitleDate_def parseLineToEvents_def

lemmas nl_defs = inferType_def shortMonth_def spacedHyphen_def dateRangePatterns_def
  datePatterns_def amPm_def timePatterns_def titleDatePatterns_def titleTimePatterns_def
  monthMap_def isoOf_def rangeOfMatch_def singleOfMatch_def parseDates_def hourText_def
  timesOfMatch_def parseTimes_def extractTitle_def parseNaturalLanguage_def
lemmas num_defs = natToString.simps padStart0.simps intToString_def

lemmas eval_all = nl_defs bulk_defs date_defs str_defs rx_defs cls_defs num_defs Let_def upto_rec1

section \<open>Properties of the bulk parser\<close>

lemma startsWith_iff: "startsWith s p = (\<exists>b. s = p @ b)"
  by (induction s p rule: startsWith.induct) auto

lemma indexOfFrom_found:
  "0 \<le> i \<Longrightarrow> (indexOfFrom s sub i \<noteq> - 1) = (\<exists>a b. s = a @ sub @ b)"
proof (induction s sub i rule: indexOfFrom.induct)
  case (1 sub i)
  then show ?case by simp
next
  case (2 c cs sub i)
  show ?case
  proof (cases "startsWith (c # cs) sub")
    case True
    then obtain b where "c # cs = sub @ b" by (auto simp: startsWith_iff)
    then have "c # cs = [] @ sub @ b" by simp
    then have ex: "\<exists>a b. c # cs = a @ sub @ b" by blast
    have "indexOfFrom (c # cs) sub i = i" using True by simp
    with 2(2) ex show ?thesis by simp
  next
    case False
    have ih: "(indexOfFrom cs sub (i + 1) \<noteq> - 1) = (\<exists>a b. cs = a @ sub @ b)"
      using 2 False by simp
    have "(\<exists>a b. c # cs = a @ sub @ b) = (\<exists>a b. cs = a @ sub @ b)"
    proof
      assume "\<exists>a b. c # cs = a @ sub @ b"
      then obtain a b where ab: "c # cs = a @ sub @ b" by blast
      show "\<exists>a b. cs = a @ sub @ b"
      proof (cases a)
        case Nil
        with ab False show ?thesis by (auto simp: startsWith_iff)
      next
        case (Cons x a')
        with ab show ?thesis by auto
      qed
    next
      assume "\<exists>a b. cs = a @ sub @ b"
      then obtain a b where "cs = a @ sub @ b" by blast
      then have "c # cs = (c # a) @ sub @ b" by simp
      then show "\<exists>a b. c # cs = a @ sub @ b" by blast
    qed
    with ih False show ?thesis by simp
  qed
qed

lemma includesStr_iff: "includesStr s sub = (\<exists>a b. s = a @ sub @ b)"
  unfolding includesStr_def indexOf_def by (rule indexOfFrom_found) simp

lemma includesStr_hasSubstring: "includesStr s sub = hasSubstring s sub"
  by (simp add: includesStr_iff hasSubstring_def)

text \<open>
  Claim C8. \<^verbatim>\<open>guessType\<close> tests the lower-cased title for its keywords in a fixed order and
  the first match decides: monthly review, then holiday / annual leave / pto, then
  meeting / review / alignment / kickoff, else PLANNING. In particular a title whose
  lower-casing contains "holiday" and not "monthly review" is typed HOLIDAYS, whatever
  else it contains.
\<close>

theorem guessType_keyword_order:
  "guessType title =
     (if hasSubstring (toLowerCase title) (js ''monthly review'') then MONTHLY_REVIEW
      else if hasSubstring (toLowerCase title) (js ''holiday'')
            \<or> hasSubstring (toLowerCase title) (js ''annual leave'')
            \<or> hasSubstring (toLowerCase title) (js ''pto'') then HOLIDAYS
      else if hasSubstring (toLowerCase title) (js ''meeting'')
            \<or> hasSubstring (toLowerCase title) (js ''review'')
            \<or> hasSubstring (toLowerCase title) (js ''alignment'')
            \<or> hasSubstring (toLowerCase title) (js ''kickoff'') then MEETING
      else PLANNING) \<and>
   (hasSubstring (toLowerCase title) (js ''holiday'') \<and>
    \<not> hasSubstring (toLowerCase title) (js ''monthly review'') \<longrightarrow> guessType title = HOLIDAYS)"
  unfolding guessType_def Let_def includesStr_hasSubstring by simp

lemmas includes_eval = js_def toLowerCase_def lowerUnit_def includesStr_def indexOf_def cls_defs

text \<open>Witness for C8: "Holiday Party Meeting" contains both keywords and is typed HOLIDAYS.\<close>

theorem guessType_keyword_order_witness:
  "hasSubstring (toLowerCase (js ''Holiday Party Meeting'')) (js ''holiday'') \<and>
   hasSubstring (toLowerCase (js ''Holiday Party Meeting'')) (js ''meeting'') \<and>
   \<not> hasSubstring (toLowerCase (js ''Holiday Party Meeting'')) (js ''monthly review'') \<and>
   guessType (js ''Holiday Party Meeting'') = HOLIDAYS"
proof -
  have h: "hasSubstring (toLowerCase (js ''Holiday Party Meeting'')) (js ''holiday'')"
    unfolding includesStr_hasSubstring[symmetric] by (simp add: includes_eval)
  have m: "hasSubstring (toLowerCase (js ''Holiday Party Meeting'')) (js ''meeting'')"
    unfolding includesStr_hasSubstring[symmetric] by (simp add: includes_eval)
  have n: "\<not> hasSubstring (toLowerCase (js ''Holiday Party Meeting'')) (js ''monthly review'')"
    unfolding includesStr_hasSubstring[symmetric] by (simp add: includes_eval)
  from guessType_keyword_order[of "js ''Holiday Party Meeting''"] h n
  have "guessType (js ''Holiday Party Meeting'') = HOLIDAYS" by blast
  with h m n show ?thesis by blast
qed

lemma parse_leader_review:
  "parseLineToEvents chrono (js ''Product Mngt Leader Review July 9-10, 2025 (Wed-Thu)'') =
     [leaderReview]"
  by (simp add: leaderReview_def eval_all cong: Let_value_cong)

text \<open>
  Claim C5. The line "Product Mngt Leader Review July 9-10, 2025 (Wed-Thu)" yields exactly
  one draft: title "Product Mngt Leader Review", type MEETING, date and startDate
  2025-07-09, endDate 2025-07-10 (whatever chrono-node would answer: it is not consulted).
\<close>

theorem parseLineToEvents_leader_review:
  "parseLineToEvents chrono (js ''Product Mngt Leader Review July 9-10, 2025 (Wed-Thu)'') =
     [\<lparr> be_type = MEETING, be_title = js ''Product Mngt Leader Review'',
        be_date = js ''2025-07-09'', be_startDate = Some (js ''2025-07-09''),
        be_endDate = Some (js ''2025-07-10'') \<rparr>]"
  using parse_leader_review[of chrono] by (simp add: leaderReview_def)

section \<open>Properties of the natural-language parser\<close>

lemma formatDateSafe_nonempty: "formatDateSafe d \<noteq> []"
  by (simp add: formatDateSafe_def Let_def js_def)

lemma timesOfMatch_endTime: "fst (timesOfMatch m) = None \<Longrightarrow> snd (timesOfMatch m) = None"
  by (auto simp: timesOfMatch_def Let_def split: if_splits)

lemma parseTimes_endTime: "fst (parseTimes s) = None \<Longrightarrow> snd (parseTimes s) = None"
  by (simp add: parseTimes_def timesOfMatch_endTime split: option.splits)

lemma parseNaturalLanguage_Some:
  assumes "parseNaturalLanguage today input = Some r"
  shows "fst (parseDates today (toLowerCase (trim input))) = Some (pe_date r)"
    and "pe_date r \<noteq> []"
    and "pe_endDate r = snd (parseDates today (toLowerCase (trim input)))"
    and "pe_startTime r = fst (parseTimes (toLowerCase (trim input)))"
    and "pe_endTime r = snd (parseTimes (toLowerCase (trim input)))"
    and "pe_type r = inferType (toLowerCase (trim input))"
    and "pe_title r = extractTitle input (fst (parseDates today (toLowerCase (trim input))))
           (fst (parseTimes (toLowerCase (trim input)))) (snd (parseTimes (toLowerCase (trim input))))"
    and "pe_title r \<noteq> []"
  using assms
  by (auto simp: parseNaturalLanguage_def Let_def truthy_def str_def
      split: prod.splits if_splits option.splits)

lemma isoOf_nonempty: "isoOf y m d \<noteq> []"
  by (simp add: isoOf_def js_def)

lemma rangeOfMatch_truthy:
  "rangeOfMatch y m = (Some d, e) \<Longrightarrow> d \<noteq> []"
  by (auto simp: rangeOfMatch_def Let_def isoOf_nonempty split: if_splits option.splits)

lemma parse_team_meeting:
  "parseNaturalLanguage today (js ''Team Meeting tomorrow 2-4pm'') =
     Some \<lparr> pe_title = js ''Team Meeting'', pe_date = formatDateSafe (today + 1),
            pe_endDate = None, pe_startTime = Some (js ''14:00''),
            pe_endTime = Some (js ''16:00''), pe_type = Some MEETING \<rparr>"
  by (simp add: nl_defs str_defs rx_defs cls_defs num_defs Let_def formatDateSafe_nonempty
        cong: Let_value_cong)

lemma tomorrow_of_julyNinth: "formatDateSafe (julyNinth + 1) = js ''2025-07-10''"
  by (simp add: julyNinth_def js_def date_defs Let_def cong: Let_value_cong)

lemma parse_team_meeting_julyNinth:
  "parseNaturalLanguage julyNinth (js ''Team Meeting tomorrow 2-4pm'') = Some teamMeeting"
  by (simp add: parse_team_meeting tomorrow_of_julyNinth teamMeeting_def)

lemma parse_conference:
  "parseNaturalLanguage julyNinth (js ''Conf 15-17 oct'') = Some conference"
  by (simp add: conference_def julyNinth_def eval_all cong: Let_value_cong)

text \<open>
  Claim C6. For every current date, "Team Meeting tomorrow 2-4pm" parses to a draft of type
  MEETING titled "Team Meeting", dated with the local ISO date of the day after the
  current one, from 14:00 to 16:00. Two instances of the date: the day after 2025-07-09,
  and the day after 2025-12-31 (day number 20453), which rolls over to the next year.
\<close>

theorem parseNaturalLanguage_team_meeting:
  "parseNaturalLanguage today (js ''Team Meeting tomorrow 2-4pm'') =
     Some \<lparr> pe_title = js ''Team Meeting'', pe_date = formatDateSafe (today + 1),
            pe_endDate = None, pe_startTime = Some (js ''14:00''),
            pe_endTime = Some (js ''16:00''), pe_type = Some MEETING \<rparr> \<and>
   formatDateSafe (julyNinth + 1) = js ''2025-07-10'' \<and>
   formatDateSafe (20453 + 1) = js ''2026-01-01''"
proof (intro conjI)
  show "parseNaturalLanguage today (js ''Team Meeting tomorrow 2-4pm'') =
     Some \<lparr> pe_title = js ''Team Meeting'', pe_date = formatDateSafe (today + 1),
            pe_endDate = None, pe_startTime = Some (js ''14:00''),
            pe_endTime = Some (js ''16:00''), pe_type = Some MEETING \<rparr>"
    by (rule parse_team_meeting)
  show "formatDateSafe (julyNinth + 1) = js ''2025-07-10''"
    by (rule tomorrow_of_julyNinth)
  show "formatDateSafe (20453 + 1) = js ''2026-01-01''"
    by (simp add: js_def date_defs Let_def cong: Let_value_cong)
qed

text \<open>
  Claim C10. A result of \<^verbatim>\<open>parseNaturalLanguage\<close> that has an end time also has a start
  time: the time loop sets both, or the start time only, or neither.
\<close>

theorem parseNaturalLanguage_endTime_with_startTime:
  assumes "parseNaturalLanguage today input = Some r" and "pe_endTime r \<noteq> None"
  shows "pe_startTime r \<noteq> None"
  using parseNaturalLanguage_Some(4,5)[OF assms(1)] assms(2) parseTimes_endTime by metis

text \<open>Witness for C10: the team meeting of 14:00 to 16:00.\<close>

theorem parseNaturalLanguage_endTime_with_startTime_witness:
  "parseNaturalLanguage julyNinth (js ''Team Meeting tomorrow 2-4pm'') = Some teamMeeting \<and>
   pe_endTime teamMeeting = Some (js ''16:00'') \<and> pe_startTime teamMeeting \<noteq> None"
proof -
  have e: "pe_endTime teamMeeting \<noteq> None" by (simp add: teamMeeting_def)
  from parseNaturalLanguage_endTime_with_startTime[OF parse_team_meeting_julyNinth e]
  show ?thesis by (simp add: parse_team_meeting_julyNinth) (simp add: teamMeeting_def)
qed

text \<open>
  Claim C9 says that \<^verbatim>\<open>parseNaturalLanguage\<close> returns null exactly when no date can be
  extracted or the title is empty once the recognised date and time tokens are stripped.
  The code departs from this on an input that begins with the date word: the pattern
  that removes \<^verbatim>\<open>today\<close> and \<^verbatim>\<open>tomorrow\<close> from the title, \<^verbatim>\<open>/\s+(today|tomorrow)/i\<close>,
  requires white space before the word, so "tomorrow" and "tomorrow 2-4pm" give a draft
  titled "tomorrow" where nothing but the date word, or the date word and the time, was
  entered. It also returns null for "Lunch 12/25/2025": the second of \<^verbatim>\<open>datePatterns\<close>
  matches "12/25/2025", but the loop body reads a match with two groups as a day and a
  month name, no month is named "25", and no date is assigned, while the title
  "Lunch 12/25/2025" is not empty.
\<close>

theorem parseNaturalLanguage_date_word_as_title:
  "parseNaturalLanguage today (js ''tomorrow'') =
     Some \<lparr> pe_title = js ''tomorrow'', pe_date = formatDateSafe (today + 1),
            pe_endDate = None, pe_startTime = None, pe_endTime = None, pe_type = None \<rparr> \<and>
   removeEach titleDatePatterns (js ''tomorrow'') = js ''tomorrow'' \<and>
   parseNaturalLanguage today (js ''tomorrow 2-4pm'') =
     Some \<lparr> pe_title = js ''tomorrow'', pe_date = formatDateSafe (today + 1),
            pe_endDate = None, pe_startTime = Some (js ''14:00''),
            pe_endTime = Some (js ''16:00''), pe_type = None \<rparr> \<and>
   parseNaturalLanguage today (js ''Lunch 12/25/2025'') = None \<and>
   map_option m_text (firstMatch datePatterns (toLowerCase (trim (js ''Lunch 12/25/2025'')))) =
     Some (js ''12/25/2025'') \<and>
   parseDates today (toLowerCase (trim (js ''Lunch 12/25/2025''))) = (None, None) \<and>
   extractTitle (js ''Lunch 12/25/2025'') None None None = js ''Lunch 12/25/2025''"
  by (simp add: nl_defs str_defs rx_defs cls_defs num_defs Let_def formatDateSafe_nonempty
        cong: Let_value_cong)

section \<open>Shapes of the drafts\<close>

text \<open>
  Claim C1 as stated fails: "Conf 15-17 oct" parses to a draft with the end date
  2025-10-17 and the start time 15:00 (the first time pattern matches the two day
  numbers of the range), and no draft of this parser has a start date.
\<close>

theorem parseNaturalLanguage_mixes_end_date_and_time:
  "parseNaturalLanguage julyNinth (js ''Conf 15-17 oct'') = Some conference \<and>
   parsedShape conference = Mixed \<and>
   pe_endDate conference = Some (js ''2025-10-17'') \<and>
   pe_startTime conference = Some (js ''15:00'')"
  by (simp add: parse_conference) (simp add: conference_def parsedShape_def shapeOf_def)

lemma eventsOfDates_shape:
  "e \<in> set (eventsOfDates ty ti dates) \<Longrightarrow>
     (bulkShape e = SingleDay \<and> be_startDate e = None \<and> be_endDate e = None) \<or>
     (bulkShape e = MultiDay \<and> be_startDate e = Some (be_date e) \<and> be_endDate e \<noteq> None)"
  by (auto simp: eventsOfDates_def Let_def bulkShape_def shapeOf_def split: if_splits)

lemma parseLineToEvents_lineDates:
  assumes "ev \<in> set (parseLineToEvents chrono line)"
  shows "\<exists>ty ti dates.
           lineDates chrono (test weekOfRegex (normalizeLine (trim line)))
             (snd (splitTitleDate (normalizeLine (trim line)))) = Some dates \<and>
           ev \<in> set (eventsOfDates ty ti dates)"
proof -
  obtain tp dp where td: "splitTitleDate (normalizeLine (trim line)) = (tp, dp)"
    by (cases "splitTitleDate (normalizeLine (trim line))") auto
  from assms have ne: "trim line \<noteq> []"
    by (auto simp: parseLineToEvents_def Let_def split: if_splits)
  show ?thesis
  proof (cases "lineDates chrono (test weekOfRegex (normalizeLine (trim line))) dp")
    case None
    with ne td have "parseLineToEvents chrono line = []"
      by (simp add: parseLineToEvents_def Let_def)
    with assms show ?thesis by simp
  next
    case (Some dates)
    with ne td have "parseLineToEvents chrono line =
        eventsOfDates (guessType (if cleanTitle tp = [] then js ''Event'' else cleanTitle tp))
          (if cleanTitle tp = [] then js ''Event'' else cleanTitle tp) dates"
      by (simp add: parseLineToEvents_def Let_def)
    with assms Some td show ?thesis by (metis snd_conv)
  qed
qed

lemma parseLineToEvents_eventsOfDates:
  "e \<in> set (parseLineToEvents chrono line) \<Longrightarrow> \<exists>ty ti dates. e \<in> set (eventsOfDates ty ti dates)"
  using parseLineToEvents_lineDates by blast

text \<open>
  Claim C1, amended. Every draft of \<^verbatim>\<open>parseLineToEvents\<close> has exactly one of the two
  shapes: single-day (no start date, no end date) or multi-day (start date equal to the
  date, and an end date); it has no times. A draft of \<^verbatim>\<open>parseNaturalLanguage\<close> always
  has a date and never a start date, so it is never of the multi-day shape; it is of the
  single-day shape exactly when it has no end date.
\<close>

theorem parser_draft_shapes:
  "(\<forall>e \<in> set (parseLineToEvents chrono line).
      (bulkShape e = SingleDay \<and> be_startDate e = None \<and> be_endDate e = None) \<or>
      (bulkShape e = MultiDay \<and> be_startDate e = Some (be_date e) \<and> be_endDate e \<noteq> None)) \<and>
   (\<forall>r. parseNaturalLanguage today input = Some r \<longrightarrow>
      pe_date r \<noteq> [] \<and> parsedShape r \<noteq> MultiDay \<and>
      (parsedShape r = SingleDay) = (pe_endDate r = None))"
proof (intro conjI ballI allI impI)
  fix e assume "e \<in> set (parseLineToEvents chrono line)"
  then obtain ty ti dates where "e \<in> set (eventsOfDates ty ti dates)"
    using parseLineToEvents_eventsOfDates by blast
  then show "(bulkShape e = SingleDay \<and> be_startDate e = None \<and> be_endDate e = None) \<or>
      (bulkShape e = MultiDay \<and> be_startDate e = Some (be_date e) \<and> be_endDate e \<noteq> None)"
    by (rule eventsOfDates_shape)
next
  fix r assume r: "parseNaturalLanguage today input = Some r"
  show "pe_date r \<noteq> []" by (rule parseNaturalLanguage_Some(2)[OF r])
  show "parsedShape r \<noteq> MultiDay" by (simp add: parsedShape_def shapeOf_def)
  show "(parsedShape r = SingleDay) = (pe_endDate r = None)"
    by (simp add: parsedShape_def shapeOf_def)
qed

text \<open>Witness for the amended C1: the leader review (multi-day) and the team meeting.\<close>

theorem parser_draft_shapes_witness:
  "leaderReview \<in> set (parseLineToEvents (\<lambda>s. ChronoNull)
      (js ''Product Mngt Leader Review July 9-10, 2025 (Wed-Thu)'')) \<and>
   bulkShape leaderReview = MultiDay \<and>
   be_startDate leaderReview = Some (be_date leaderReview) \<and>
   parseNaturalLanguage julyNinth (js ''Team Meeting tomorrow 2-4pm'') = Some teamMeeting \<and>
   parsedShape teamMeeting = SingleDay"
proof -
  have m: "leaderReview \<in> set (parseLineToEvents (\<lambda>s. ChronoNull)
      (js ''Product Mngt Leader Review July 9-10, 2025 (Wed-Thu)''))"
    by (simp add: parse_leader_review)
  have n: "be_endDate leaderReview \<noteq> None" "pe_endDate teamMeeting = None"
    by (simp_all add: leaderReview_def teamMeeting_def)
  note t = parser_draft_shapes[of "\<lambda>s. ChronoNull"
      "js ''Product Mngt Leader Review July 9-10, 2025 (Wed-Thu)''" julyNinth
      "js ''Team Meeting tomorrow 2-4pm''"]
  from t m have "(bulkShape leaderReview = SingleDay \<and> be_startDate leaderReview = None
        \<and> be_endDate leaderReview = None) \<or>
      (bulkShape leaderReview = MultiDay \<and> be_startDate leaderReview = Some (be_date leaderReview)
        \<and> be_endDate leaderReview \<noteq> None)"
    by auto
  with n(1) have b: "bulkShape leaderReview = MultiDay \<and>
    be_startDate leaderReview = Some (be_date leaderReview)" by auto
  from t parse_team_meeting_julyNinth
  have "(parsedShape teamMeeting = SingleDay) = (pe_endDate teamMeeting = None)" by auto
  with n(2) have p: "parsedShape teamMeeting = SingleDay" by auto
  from m b p parse_team_meeting_julyNinth show ?thesis by auto
qed

section \<open>Ranges: the order of the two ends\<close>

subsection \<open>Capture groups are bounded\<close>

lemma pendingOK_False: "pendingOK B k s a False \<Longrightarrow> pendingOK B k s' a' sf"
  by (induction k arbitrary: a a' sf) (auto elim: pendingOK.elims)

lemma pendingOK_mono: "pendingOK B k s a sf \<Longrightarrow> a' \<le> a \<Longrightarrow> pendingOK B k s a' sf"
proof (induction B k s a sf arbitrary: a' rule: pendingOK.induct)
  case (1 B s acc sf)
  then show ?case by simp
next
  case (2 B r k s acc sf)
  then show ?case by auto
next
  case (3 B n s0 k s acc sf)
  then show ?case by auto
qed

lemma pendingOK_step:
  "pendingOK B k (c # cs) (Suc a) sf \<Longrightarrow> pendingOK B k cs a sf"
proof (induction B k "c # cs" "Suc a" sf arbitrary: a rule: pendingOK.induct)
  case (1 B sf)
  then show ?case by simp
next
  case (2 B r k sf)
  then show ?case by (cases sf) (auto intro: pendingOK_False)
next
  case (3 B n s0 k sf)
  then show ?case by auto
qed


lemma capsOK_Cons: "capsOK B ((n, w) # caps) = (length w \<le> B n \<and> capsOK B caps)"
  by (simp add: capsOK_def)

lemma run_capsOK:
  "run k prev s caps = Some (s', caps') \<Longrightarrow> pendingOK B k s 0 True \<Longrightarrow> capsOK B caps \<Longrightarrow>
   capsOK B caps'"
proof (induction k prev s caps arbitrary: s' caps' rule: run.induct)
  case (1 prev s caps)
  then show ?case by simp
next
  case (2 cl k prev caps)
  then show ?case by simp
next
  case (3 cl k prev c cs caps)
  from 3(2) have m: "inClass cl c" and r: "run k (Some c) cs caps = Some (s', caps')"
    by (auto split: if_splits)
  from 3(3) have "pendingOK B k (c # cs) (Suc 0) True" by simp
  then have "pendingOK B k cs 0 True" by (rule pendingOK_step)
  from 3(1)[OF m r this 3(4)] show ?case .
next
  case (4 a b k prev s caps)
  from 4(3) have "pendingOK B (Match a # Match b # k) s 0 True"
    by (simp add: add.assoc)
  from 4(1)[OF _ this 4(4)] 4(2) show ?case by simp
next
  case (5 a b k prev s caps)
  from 5(4) have pa: "pendingOK B (Match a # k) s 0 True"
    and pb: "pendingOK B (Match b # k) s 0 True"
    by (cases "starFree a"; cases "starFree b"; auto intro: pendingOK_mono pendingOK_False)+
  show ?case
  proof (cases "run (Match a # k) prev s caps")
    case None
    with 5(3) have "run (Match b # k) prev s caps = Some (s', caps')" by simp
    from 5(2)[OF None this pb 5(5)] show ?thesis .
  next
    case (Some r)
    with 5(3) have "run (Match a # k) prev s caps = Some (s', caps')" by simp
    from 5(1)[OF this pa 5(5)] show ?thesis .
  qed
next
  case (6 cl k prev caps)
  from 6(3) have "pendingOK B k [] 0 True" by (auto intro: pendingOK_False)
  from 6(1)[OF _ this 6(4)] 6(2) show ?case by simp
next
  case (7 cl k prev c cs caps)
  from 7(5) have f: "pendingOK B k (c # cs) 0 False" by simp
  then have pk: "pendingOK B k (c # cs) 0 True" by (rule pendingOK_False)
  from f have "pendingOK B k cs 0 False" by (rule pendingOK_False)
  then have ps: "pendingOK B (Match (Star cl) # k) cs 0 True" by simp
  show ?case
  proof (cases "inClass cl c")
    case False
    with 7(4) have "run k prev (c # cs) caps = Some (s', caps')" by simp
    from 7(3)[OF False this pk 7(6)] show ?thesis .
  next
    case True
    show ?thesis
    proof (cases "run (Match (Star cl) # k) (Some c) cs caps")
      case None
      with 7(4) True have "run k prev (c # cs) caps = Some (s', caps')" by simp
      from 7(2)[OF True None this pk 7(6)] show ?thesis .
    next
      case (Some r)
      with 7(4) True have "run (Match (Star cl) # k) (Some c) cs caps = Some (s', caps')" by simp
      from 7(1)[OF True this ps 7(6)] show ?thesis .
    qed
  qed
next
  case (8 a k prev s caps)
  from 8(4) have pa: "pendingOK B (Match a # k) s 0 True" by simp
  from 8(4) have pk: "pendingOK B k s 0 True"
    by (cases "starFree a") (auto intro: pendingOK_mono pendingOK_False)
  show ?case
  proof (cases "run (Match a # k) prev s caps")
    case None
    with 8(3) have "run k prev s caps = Some (s', caps')" by simp
    from 8(2)[OF None this pk 8(5)] show ?thesis .
  next
    case (Some r)
    with 8(3) have "run (Match a # k) prev s caps = Some (s', caps')" by simp
    from 8(1)[OF this pa 8(5)] show ?thesis .
  qed
next
  case (9 n a k prev s caps)
  from 9(3) have "pendingOK B (Match a # CloseGroup n s # k) s 0 True" by auto
  from 9(1)[OF _ this 9(4)] 9(2) show ?case by simp
next
  case (10 n s0 k prev s caps)
  from 10(3) have len: "length s0 - length s \<le> B n" and pk: "pendingOK B k s 0 True" by auto
  have "capsOK B ((n, take (length s0 - length s) s0) # caps)"
    using len 10(4) by (simp add: capsOK_Cons)
  from 10(1)[OF _ pk this] 10(2) show ?case by simp
next
  case (11 k prev s caps)
  from 11(3) have pk: "pendingOK B k s 0 True" by simp
  from 11(2) have "run k prev s caps = Some (s', caps')" by (auto split: if_splits)
  from 11(1)[OF _ this pk 11(4)] 11(2) show ?case by (auto split: if_splits)
next
  case (12 k prev s caps)
  from 12(3) have pk: "pendingOK B k s 0 True" by simp
  from 12(2) have e: "s = []" and "run k prev s caps = Some (s', caps')" by (auto split: if_splits)
  from 12(1)[OF e this(2) pk 12(4)] show ?case .
next
  case (13 k prev s caps)
  from 13(3) have pk: "pendingOK B k s 0 True" by simp
  from 13(1)[OF _ pk 13(4)] 13(2) show ?case by simp
qed

lemma searchFrom_capsOK:
  "searchFrom re prev s i = Some m \<Longrightarrow> groupsOK B re \<Longrightarrow> capsOK B (m_caps m)"
proof (induction re prev s i rule: searchFrom.induct)
  case (1 re prev i)
  then obtain rest caps where r: "run [Match re] prev [] [] = Some (rest, caps)"
    and m: "m_caps m = caps" by (auto split: option.splits)
  have "pendingOK B [Match re] [] 0 True" using 1(2) by simp
  from run_capsOK[OF r this] m show ?case by (simp add: capsOK_def)
next
  case (2 re prev c cs i)
  show ?case
  proof (cases "run [Match re] prev (c # cs) []")
    case None
    with 2 show ?thesis by simp
  next
    case (Some r)
    then obtain rest caps where r: "run [Match re] prev (c # cs) [] = Some (rest, caps)"
      by (cases r) auto
    with 2(2) have m: "m_caps m = caps" by auto
    have "pendingOK B [Match re] (c # cs) 0 True" using 2(3) by simp
    from run_capsOK[OF r this] m show ?thesis by (simp add: capsOK_def)
  qed
qed

lemma match_group_length:
  assumes "match s re = Some m" and "groupsOK B re" and "grp m n = Some w"
  shows "length w \<le> B n"
proof -
  from searchFrom_capsOK[OF assms(1)[unfolded match_def] assms(2)]
  have "capsOK B (m_caps m)" .
  moreover from assms(3) have "(n, w) \<in> set (m_caps m)"
    by (simp add: grp_def map_of_SomeD)
  ultimately show ?thesis by (auto simp: capsOK_def)
qed

lemma firstMatch_member:
  "firstMatch ps s = Some m \<Longrightarrow> \<exists>p \<in> set ps. match s p = Some m"
  by (induction ps) (auto split: option.splits)

subsection \<open>Day numbers and the order of the date texts\<close>

lemma strLess_append: "strLess (p @ a) (p @ b) = strLess a b"
  by (induction p) auto

lemma dateRange_groups:
  "groupsOK rangeBound0 (dateRangePatterns ! 0)"
  "groupsOK rangeBound1 (dateRangePatterns ! 1)"
  "groupsOK rangeBound2 (dateRangePatterns ! 2)"
  by (simp_all add: dateRangePatterns_def rangeBound0_def rangeBound1_def rangeBound2_def
      digits12_def shortMonth_def spacedHyphen_def oneOrMore_def litI_def)

lemma foldl_digits_bound:
  "\<forall>c \<in> set ds. isDigit c \<Longrightarrow>
   foldl (\<lambda>acc c. 10 * acc + (c - 48)) a ds < (a + 1) * 10 ^ length ds"
proof (induction ds arbitrary: a)
  case Nil
  then show ?case by simp
next
  case (Cons c ds)
  then have c: "c - 48 \<le> 9" by (auto simp: isDigit_def)
  from Cons have "foldl (\<lambda>acc c. 10 * acc + (c - 48)) (10 * a + (c - 48)) ds
      < (10 * a + (c - 48) + 1) * 10 ^ length ds" by simp
  also have "\<dots> \<le> (10 * a + 10) * 10 ^ length ds"
    using c by (intro mult_right_mono) auto
  also have "\<dots> = (a + 1) * 10 ^ length (c # ds)" by (simp add: algebra_simps)
  finally show ?case by simp
qed

lemma parseInt_bound: "length w \<le> 2 \<Longrightarrow> parseInt w < 100"
proof -
  assume w: "length w \<le> 2"
  let ?ds = "takeWhile isDigit w"
  have "\<forall>c \<in> set ?ds. isDigit c" by (auto dest: set_takeWhileD)
  from foldl_digits_bound[OF this, of 0]
  have "parseInt w < 10 ^ length ?ds" by (simp add: parseInt_def)
  also have "\<dots> \<le> (10::nat) ^ 2"
    using w length_takeWhile_le[of isDigit w] by (intro power_increasing) auto
  finally show ?thesis by simp
qed

lemma natToString_small: "d < 10 \<Longrightarrow> natToString d = [48 + d]"
  by (subst natToString.simps) simp

lemma natToString_two:
  assumes "10 \<le> d" "d < 100"
  shows "natToString d = [48 + d div 10, 48 + d mod 10]"
proof -
  from assms have q: "d div 10 < 10" by simp
  have "natToString d = natToString (d div 10) @ [48 + d mod 10]"
    using assms(1) by (subst natToString.simps) simp
  with natToString_small[OF q] show ?thesis by simp
qed

lemma padStart0_two: "padStart0 2 [a, b] = [a, b]"
  by (subst padStart0.simps) simp

lemma padStart0_one: "padStart0 2 [a] = [48, a]"
  by (subst padStart0.simps) (simp add: padStart0_two)

lemma pad2: "d < 100 \<Longrightarrow> padStart0 2 (natToString d) = [48 + d div 10, 48 + d mod 10]"
proof (cases "d < 10")
  case True
  then show ?thesis by (simp add: natToString_small padStart0_one)
next
  case False
  assume "d < 100"
  with False show ?thesis by (simp add: natToString_two padStart0_two)
qed

lemma digits_less:
  "(a div 10 < b div 10 \<or> (a div 10 = b div 10 \<and> a mod 10 < b mod 10)) = (a < (b::nat))"
proof -
  define qa ra qb rb where "qa = a div 10" and "ra = a mod 10" and "qb = b div 10" and "rb = b mod 10"
  have a: "a = 10 * qa + ra" and b: "b = 10 * qb + rb" and r: "ra < 10" "rb < 10"
    by (simp_all add: qa_def ra_def qb_def rb_def)
  show ?thesis
    unfolding qa_def[symmetric] ra_def[symmetric] qb_def[symmetric] rb_def[symmetric]
    unfolding a b using r by arith
qed

lemma strLess_pad2:
  assumes "a < 100" "b < 100"
  shows "strLess (padStart0 2 (natToString a)) (padStart0 2 (natToString b)) = (a < b)"
  unfolding pad2[OF assms(1)] pad2[OF assms(2)] by (simp add: digits_less)

lemma strLess_isoOf:
  assumes "a < 100" "b < 100"
  shows "strLess (isoOf y mo a) (isoOf y mo b) = (a < b)"
proof -
  have "isoOf y mo a = (intToString y @ js ''-'' @ mo @ js ''-'') @ padStart0 2 (natToString a)"
    "isoOf y mo b = (intToString y @ js ''-'' @ mo @ js ''-'') @ padStart0 2 (natToString b)"
    by (simp_all add: isoOf_def)
  then show ?thesis by (simp only: strLess_append strLess_pad2[OF assms])
qed

subsection \<open>Where the end date comes from\<close>

lemma monthMap_Some: "monthMap x = Some mo \<Longrightarrow> length x = 3 \<and> 775 \<notin> set x"
  by (auto simp: monthMap_def js_def split: if_splits)

lemma toLowerCase_length: "775 \<notin> set (toLowerCase g) \<Longrightarrow> length (toLowerCase g) = length g"
  by (induction g) (auto simp: toLowerCase_def lowerUnit_def split: if_splits)

lemma firstMatch_dateRange:
  assumes "firstMatch dateRangePatterns s = Some m"
  shows "match s (dateRangePatterns ! 0) = Some m \<or> match s (dateRangePatterns ! 1) = Some m
         \<or> match s (dateRangePatterns ! 2) = Some m"
proof -
  from firstMatch_member[OF assms] obtain p where p: "p \<in> set dateRangePatterns"
    and m: "match s p = Some m" by blast
  have "set dateRangePatterns = {dateRangePatterns ! 0, dateRangePatterns ! 1, dateRangePatterns ! 2}"
    by (simp add: dateRangePatterns_def)
  with p m show ?thesis by auto
qed

lemma rangeOfMatch_branch:
  assumes "rangeOfMatch y m = (a, b)" and "a \<noteq> None \<or> b \<noteq> None"
  shows "\<exists>g1 g2 g3 month. grp m 1 = Some g1 \<and> grp m 2 = Some g2 \<and> grp m 3 = Some g3 \<and>
           monthMap (toLowerCase g3) = Some month \<and>
           a = Some (isoOf y (padStart0 2 (natToString (month + 1))) (parseInt g1)) \<and>
           b = Some (isoOf y (padStart0 2 (natToString (month + 1))) (parseInt g2))"
  using assms
  by (auto simp: rangeOfMatch_def Let_def truthy_def str_def split: if_splits option.splits)

lemma range_days_bounded:
  assumes fm: "firstMatch dateRangePatterns s = Some m"
    and g: "grp m 1 = Some g1" "grp m 2 = Some g2" "grp m 3 = Some g3"
    and mo: "monthMap (toLowerCase g3) = Some month"
  shows "parseInt g1 < 100 \<and> parseInt g2 < 100"
proof -
  from monthMap_Some[OF mo] toLowerCase_length[of g3] have l3: "length g3 = 3" by simp
  from firstMatch_dateRange[OF fm] consider
      (p0) "match s (dateRangePatterns ! 0) = Some m"
    | (p1) "match s (dateRangePatterns ! 1) = Some m"
    | (p2) "match s (dateRangePatterns ! 2) = Some m" by blast
  then show ?thesis
  proof cases
    case p0
    from match_group_length[OF p0 dateRange_groups(1) g(1)]
         match_group_length[OF p0 dateRange_groups(1) g(2)]
    show ?thesis by (simp add: rangeBound0_def parseInt_bound)
  next
    case p1
    from match_group_length[OF p1 dateRange_groups(2) g(3)] l3
    show ?thesis by (simp add: rangeBound1_def)
  next
    case p2
    from match_group_length[OF p2 dateRange_groups(3) g(3)] l3
    show ?thesis by (simp add: rangeBound2_def)
  qed
qed

lemma parseDates_endDate:
  assumes "parseDates today s = (pd, Some e)"
  shows "\<exists>m d. firstMatch dateRangePatterns s = Some m \<and>
           rangeOfMatch (getFullYear today) m = (Some d, Some e) \<and> pd = Some d"
proof -
  obtain a b where ab: "(case firstMatch dateRangePatterns s of None \<Rightarrow> (None, None)
      | Some m \<Rightarrow> rangeOfMatch (getFullYear today) m) = (a, b)" by (rule prod.exhaust)
  from assms ab have b: "b = Some e"
    by (auto simp: parseDates_def Let_def split: if_splits option.splits)
  with ab obtain m where m: "firstMatch dateRangePatterns s = Some m"
    and r: "rangeOfMatch (getFullYear today) m = (a, Some e)"
    by (auto split: option.splits)
  from rangeOfMatch_branch[OF r] obtain d where d: "a = Some d" by auto
  from rangeOfMatch_truthy[OF r[unfolded d]] have "truthy (Some d)" by (simp add: truthy_def)
  with assms ab d have "pd = Some d"
    by (auto simp: parseDates_def Let_def split: if_splits option.splits)
  with m r d show ?thesis by blast
qed

lemma eachDayOfInterval_ends:
  assumes "1 < length (eachDayOfInterval a b)"
  shows "\<exists>s t. a = Some s \<and> b = Some t \<and> s \<noteq> t \<and>
           hd (eachDayOfInterval a b) = s \<and> last (eachDayOfInterval a b) = t"
proof -
  from assms obtain s t where a: "a = Some s" and b: "b = Some t"
    by (cases a; cases b) (auto simp: eachDayOfInterval_def)
  from assms have ne: "s \<noteq> t" by (auto simp: a b eachDayOfInterval_def)
  show ?thesis
  proof (cases "s < t")
    case True
    then have "hd [s..t] = s" by (simp add: upto_rec1[of s t])
    moreover from True have "last [s..t] = t" by (simp add: upto_rec2[of s t])
    ultimately have "hd [s..t] = s" "last [s..t] = t" by simp_all
    with True show ?thesis by (simp add: a b ne eachDayOfInterval_def)
  next
    case False
    with ne have lt: "t < s" by simp
    then have "hd [t..s] = t" by (simp add: upto_rec1[of t s])
    moreover from lt have "last [t..s] = s" by (simp add: upto_rec2[of t s])
    moreover from lt have "[t..s] \<noteq> []" by simp
    ultimately have "hd [t..s] = t" "last [t..s] = s" "[t..s] \<noteq> []" by simp_all
    with lt show ?thesis by (simp add: a b ne eachDayOfInterval_def hd_rev last_rev)
  qed
qed

lemma lineDates_intervalEnds:
  assumes "lineDates chrono w dp = Some dates" and "1 < length dates"
  shows "\<exists>a b. intervalEnds chrono w dp = Some (a, b) \<and> dates = eachDayOfInterval a b"
  using assms
  by (auto simp: lineDates_def intervalEnds_def range1Dates_def range2Dates_def Let_def
      split: if_splits option.splits chronoResult.splits prod.splits)

lemma eventsOfDates_endDate:
  assumes "ev \<in> set (eventsOfDates ty ti dates)" and "be_endDate ev = Some e2"
  shows "1 < length dates \<and> be_date ev = formatISO (hd dates) \<and>
         be_startDate ev = Some (formatISO (hd dates)) \<and> e2 = formatISO (last dates)"
  using assms by (auto simp: eventsOfDates_def Let_def split: if_splits)

lemma parse_trip:
  "parseNaturalLanguage julyNinth (js ''Trip 17-15 oct'') = Some trip"
  by (simp add: trip_def julyNinth_def eval_all cong: Let_value_cong)

lemma parse_offsite:
  "parseLineToEvents chrono (js ''Offsite July 10-9, 2025'') = [offsite]"
  by (simp add: offsite_def eval_all cong: Let_value_cong)

lemma offsite_intervalEnds:
  "intervalEnds chrono (test weekOfRegex (normalizeLine (trim (js ''Offsite July 10-9, 2025''))))
     (snd (splitTitleDate (normalizeLine (trim (js ''Offsite July 10-9, 2025''))))) =
   Some (Some 20279, Some 20278)"
  by (simp add: eval_all cong: Let_value_cong)

text \<open>
  Claim C2 as stated fails for both parsers. "Trip 17-15 oct" parses to a draft dated
  2025-10-17 whose end date 2025-10-15 lies before it, and the line
  "Offsite July 10-9, 2025" parses to one draft dated 2025-07-10 whose end date is
  2025-07-09.
\<close>

theorem parsers_return_inverted_range:
  "parseNaturalLanguage julyNinth (js ''Trip 17-15 oct'') = Some trip \<and>
   pe_date trip = js ''2025-10-17'' \<and> pe_endDate trip = Some (js ''2025-10-15'') \<and>
   strLess (js ''2025-10-15'') (js ''2025-10-17'') \<and>
   parseLineToEvents (\<lambda>s. ChronoNull) (js ''Offsite July 10-9, 2025'') = [offsite] \<and>
   be_date offsite = js ''2025-07-10'' \<and> be_startDate offsite = Some (js ''2025-07-10'') \<and>
   be_endDate offsite = Some (js ''2025-07-09'') \<and>
   strLess (js ''2025-07-09'') (js ''2025-07-10'')"
  by (simp add: parse_trip parse_offsite) (simp add: trip_def offsite_def js_def)

text \<open>
  Claim C2, amended. Neither parser checks or reorders the two ends of a range; a draft
  carries them in the order in which the input has them. For \<^verbatim>\<open>parseNaturalLanguage\<close>, a
  draft with an end date comes from a date range pattern, its date and its end date are
  built from the same year and month and from the first and the second day number of the
  match, and the end date lies before the date exactly when the second day number is
  smaller than the first. For \<^verbatim>\<open>parseLineToEvents\<close>, a draft with an end date comes from
  a branch that expands an interval; \<^verbatim>\<open>start\<close> and \<^verbatim>\<open>end\<close> of that interval (parsed from
  the first and from the second month and day of the range as matched in the date part
  of the line, or the date found by chrono and the fourth day after it) are two
  different days, the draft's date and start date are \<^verbatim>\<open>start\<close> and its end date is
  \<^verbatim>\<open>end\<close>, whichever of the two is the earlier.
\<close>

theorem range_order_as_written:
  "(\<forall>r e. parseNaturalLanguage today input = Some r \<and> pe_endDate r = Some e \<longrightarrow>
      (\<exists>m mo. firstMatch dateRangePatterns (toLowerCase (trim input)) = Some m \<and>
         pe_date r = isoOf (getFullYear today) mo (parseInt (str (grp m 1))) \<and>
         e = isoOf (getFullYear today) mo (parseInt (str (grp m 2))) \<and>
         strLess e (pe_date r) = (parseInt (str (grp m 2)) < parseInt (str (grp m 1))))) \<and>
   (\<forall>ev e2. ev \<in> set (parseLineToEvents chrono line) \<and> be_endDate ev = Some e2 \<longrightarrow>
      (\<exists>start stop.
         intervalEnds chrono (test weekOfRegex (normalizeLine (trim line)))
           (snd (splitTitleDate (normalizeLine (trim line)))) = Some (Some start, Some stop) \<and>
         start \<noteq> stop \<and> be_date ev = formatISO start \<and>
         be_startDate ev = Some (formatISO start) \<and> e2 = formatISO stop))"
proof (intro conjI allI impI)
  fix r e
  assume h: "parseNaturalLanguage today input = Some r \<and> pe_endDate r = Some e"
  let ?s = "toLowerCase (trim input)"
  from h have r: "parseNaturalLanguage today input = Some r" and e: "pe_endDate r = Some e"
    by auto
  from parseNaturalLanguage_Some(1,3)[OF r] e
  have "parseDates today ?s = (Some (pe_date r), Some e)"
    by (metis prod.collapse)
  from parseDates_endDate[OF this] obtain m where m: "firstMatch dateRangePatterns ?s = Some m"
    and rm: "rangeOfMatch (getFullYear today) m = (Some (pe_date r), Some e)" by auto
  from rangeOfMatch_branch[OF rm] obtain g1 g2 g3 month where
    g: "grp m 1 = Some g1" "grp m 2 = Some g2" "grp m 3 = Some g3"
    and mo: "monthMap (toLowerCase g3) = Some month"
    and d: "pe_date r = isoOf (getFullYear today) (padStart0 2 (natToString (month + 1))) (parseInt g1)"
    and e': "e = isoOf (getFullYear today) (padStart0 2 (natToString (month + 1))) (parseInt g2)"
    by auto
  from range_days_bounded[OF m g mo] have b: "parseInt g1 < 100" "parseInt g2 < 100" by auto
  have "strLess e (pe_date r) = (parseInt g2 < parseInt g1)"
    unfolding d e' by (rule strLess_isoOf[OF b(2) b(1)])
  with m d e' g show "\<exists>m mo. firstMatch dateRangePatterns ?s = Some m \<and>
         pe_date r = isoOf (getFullYear today) mo (parseInt (str (grp m 1))) \<and>
         e = isoOf (getFullYear today) mo (parseInt (str (grp m 2))) \<and>
         strLess e (pe_date r) = (parseInt (str (grp m 2)) < parseInt (str (grp m 1)))"
    by (intro exI[of _ m] exI[of _ "padStart0 2 (natToString (month + 1))"]) (simp add: str_def)
next
  fix ev e2
  assume h: "ev \<in> set (parseLineToEvents chrono line) \<and> be_endDate ev = Some e2"
  let ?w = "test weekOfRegex (normalizeLine (trim line))"
  let ?dp = "snd (splitTitleDate (normalizeLine (trim line)))"
  from h obtain ty ti dates where ld: "lineDates chrono ?w ?dp = Some dates"
    and ev: "ev \<in> set (eventsOfDates ty ti dates)"
    using parseLineToEvents_lineDates by blast
  from eventsOfDates_endDate[OF ev] h have len: "1 < length dates"
    and f: "be_date ev = formatISO (hd dates)" "be_startDate ev = Some (formatISO (hd dates))"
      "e2 = formatISO (last dates)" by auto
  from lineDates_intervalEnds[OF ld len] obtain a b where
    ie: "intervalEnds chrono ?w ?dp = Some (a, b)" and ab: "dates = eachDayOfInterval a b"
    by blast
  from eachDayOfInterval_ends[OF len[unfolded ab]] ab obtain s t where
    "a = Some s" "b = Some t" "s \<noteq> t" "hd dates = s" "last dates = t" by auto
  with f ie show "\<exists>start stop. intervalEnds chrono ?w ?dp = Some (Some start, Some stop) \<and>
      start \<noteq> stop \<and> be_date ev = formatISO start \<and>
      be_startDate ev = Some (formatISO start) \<and> e2 = formatISO stop" by auto
qed

text \<open>
  Witness for the amended C2: an ascending range for \<^verbatim>\<open>parseNaturalLanguage\<close>, and for
  \<^verbatim>\<open>parseLineToEvents\<close> a descending range, whose draft starts on the later day, 10 July
  2025 (day 20279), and ends on the earlier one.
\<close>

theorem range_order_as_written_witness:
  "parseNaturalLanguage julyNinth (js ''Conf 15-17 oct'') = Some conference \<and>
   pe_endDate conference = Some (js ''2025-10-17'') \<and>
   firstMatch dateRangePatterns (toLowerCase (trim (js ''Conf 15-17 oct''))) \<noteq> None \<and>
   \<not> strLess (js ''2025-10-17'') (pe_date conference) \<and>
   offsite \<in> set (parseLineToEvents (\<lambda>s. ChronoNull) (js ''Offsite July 10-9, 2025'')) \<and>
   be_endDate offsite = Some (js ''2025-07-09'') \<and>
   intervalEnds (\<lambda>s. ChronoNull)
     (test weekOfRegex (normalizeLine (trim (js ''Offsite July 10-9, 2025''))))
     (snd (splitTitleDate (normalizeLine (trim (js ''Offsite July 10-9, 2025''))))) =
     Some (Some 20279, Some 20278) \<and>
   be_date offsite = formatISO 20279 \<and> be_startDate offsite = Some (formatISO 20279) \<and>
   js ''2025-07-09'' = formatISO 20278"
proof -
  note t = range_order_as_written[of julyNinth "js ''Conf 15-17 oct''" "\<lambda>s. ChronoNull"
      "js ''Offsite July 10-9, 2025''"]
  have e: "pe_endDate conference = Some (js ''2025-10-17'')" by (simp add: conference_def)
  from t parse_conference e
  have nl: "firstMatch dateRangePatterns (toLowerCase (trim (js ''Conf 15-17 oct''))) \<noteq> None"
    by fastforce
  have m: "offsite \<in> set (parseLineToEvents (\<lambda>s. ChronoNull) (js ''Offsite July 10-9, 2025''))"
    by (simp add: parse_offsite)
  have e2: "be_endDate offsite = Some (js ''2025-07-09'')" by (simp add: offsite_def)
  from t m e2 have "\<exists>start stop.
      intervalEnds (\<lambda>s. ChronoNull)
        (test weekOfRegex (normalizeLine (trim (js ''Offsite July 10-9, 2025''))))
        (snd (splitTitleDate (normalizeLine (trim (js ''Offsite July 10-9, 2025''))))) =
        Some (Some start, Some stop) \<and>
      start \<noteq> stop \<and> be_date offsite = formatISO start \<and>
      be_startDate offsite = Some (formatISO start) \<and> js ''2025-07-09'' = formatISO stop"
    by blast
  then have bulk: "be_date offsite = formatISO 20279 \<and>
      be_startDate offsite = Some (formatISO 20279) \<and> js ''2025-07-09'' = formatISO 20278"
    by (auto simp: offsite_intervalEnds)
  have "\<not> strLess (js ''2025-10-17'') (pe_date conference)"
    by (simp add: conference_def js_def)
  with parse_conference e nl m e2 bulk offsite_intervalEnds show ?thesis by blast
qed

end
